theory Spec2Isabelle
  imports Main
begin

section \<open>Data model of supfile.go\<close>

text \<open>
  Go strings are byte sequences; they are modelled as \<open>string\<close> (lists of 8-bit
  characters). A Go \<open>map[string]T\<close> is a partial map \<open>string \<rightharpoonup> T\<close>. Go's
  \<open>int\<close> field \<open>Serial\<close> is only compared with zero, so it is an \<open>int\<close>. Several
  structs share field names; the records of the two library types come first, so that
  an unqualified field name is that of the struct of this file.
\<close>

text \<open>
  A value held by a Go \<open>interface{}\<close>, as the YAML decoder produces them: only the
  dynamic type matters here (\<open>item.Key.(string)\<close> asks for a string).
\<close>

datatype iface =
    IString string
  | IInt int
  | IBool bool
  | INil
  | IOther

text \<open>\<open>yaml.MapItem\<close>; a \<open>yaml.MapSlice\<close> is a list of them.\<close>

record MapItem =
  Key :: iface
  Value :: iface

text \<open>
  Modelled from the spec: the element type of the SSH-config lookup table
  \<open>extractedHostSSHConfig\<close>, which is declared outside this file. The spec lists its
  fields (aliases in order, the first being the display name, resolved user, resolved
  hostname, resolved port, identity-file path, proxy-jump host); \<open>NewHost\<close> reads
  them under the names below and prints the port with \<open>%d\<close>.
\<close>

record SSHHost =
  Host :: "string list"
  HostName :: string
  User :: string
  Port :: int
  IdentityFile :: string
  ProxyJump :: string

record Upload =
  Src :: string
  Dst :: string
  Exc :: string

record EnvVar =
  Key :: string
  Value :: string

text \<open>
  \<open>EnvList\<close> is \<open>[]*EnvVar\<close>. Every entry is allocated by \<open>Set\<close>
  (\<open>&EnvVar{...}\<close>), one object per position, so the list is modelled by the values
  its entries point to, and writing \<open>(*e)[i].Value\<close> is a list update at \<open>i\<close>.
\<close>

type_synonym EnvList = "EnvVar list"

record Host =
  Address :: string
  Port :: string
  User :: string
  IdentityFile :: string
  KnownAs :: string
  Bastion :: string

record Network =
  Env :: EnvList
  Inventory :: string
  Hosts :: "Host list"
  HostsFromConfig :: "string list"
  Bastion :: string

record Networks =
  Names :: "string list"
  nets :: "string \<rightharpoonup> Network"

record Command =
  Name :: string
  Desc :: string
  Local :: bool
  Run :: string
  Script :: string
  Upload :: "Upload list"
  Stdin :: bool
  Once :: bool
  Serial :: int
  RunOnce :: bool

record Commands =
  Names :: "string list"
  cmds :: "string \<rightharpoonup> Command"

record Targets =
  Names :: "string list"
  targets :: "string \<rightharpoonup> string list"

record Supfile =
  Networks :: Networks
  Commands :: Commands
  Targets :: Targets
  Env :: EnvList
  Version :: string

text \<open>
  Errors as values. \<open>ErrMustUpdate\<close> and \<open>ErrUnsupportedSupfileVersion\<close> are the two
  error structs of the source, each carrying its \<open>Msg\<close>. \<open>Errorf\<close> is an error made
  by \<open>fmt.Errorf\<close>, \<open>AddrError\<close> is \<open>net.AddrError\<close> (reason, address),
  \<open>Wrapf\<close> is \<open>errors.Wrapf\<close> (cause, message), \<open>External\<close> is an error handed
  back by the operating system, a subprocess or the YAML decoder, and \<open>Panic\<close> is a
  run-time panic.
\<close>

datatype error =
    ErrMustUpdate string
  | ErrUnsupportedSupfileVersion string
  | Errorf string
  | AddrError string string
  | Wrapf error string
  | External string
  | Panic string

section \<open>NewSupfile: the version switch\<close>

text \<open>
  Go ranges over a map in an order of the runtime's choosing, a new one for every
  \<open>range\<close> statement. Each of the four \<open>range\<close> loops of \<open>NewSupfile\<close> therefore
  takes the order it visits the keys in; \<open>range_order\<close> says that such an order
  visits every key of the map exactly once.
\<close>

record RangeOrders =
  cmds_v01 :: "string list"
  cmds_v02 :: "string list"
  nets_v02 :: "string list"
  cmds_v03 :: "string list"

definition range_order :: "string list \<Rightarrow> (string \<rightharpoonup> 'v) \<Rightarrow> bool" where
  "range_order ks m \<longleftrightarrow> distinct ks \<and> set ks = dom m"

definition range_orders :: "RangeOrders \<Rightarrow> Supfile \<Rightarrow> bool" where
  "range_orders ord conf \<longleftrightarrow>
     range_order (cmds_v01 ord) (cmds (Commands conf)) \<and>
     range_order (cmds_v02 ord) (cmds (Commands conf)) \<and>
     range_order (nets_v02 ord) (nets (Networks conf)) \<and>
     range_order (cmds_v03 ord) (cmds (Commands conf))"

text \<open>A \<open>range\<close> loop whose body only returns an error or goes on.\<close>

fun range_check :: "('v \<Rightarrow> error option) \<Rightarrow> (string \<rightharpoonup> 'v) \<Rightarrow> string list \<Rightarrow> error option" where
  "range_check f m [] = None"
| "range_check f m (k # ks) =
     (case m k of
        None \<Rightarrow> range_check f m ks
      | Some v \<Rightarrow> (case f v of Some e \<Rightarrow> Some e | None \<Rightarrow> range_check f m ks))"

text \<open>The body of the loop of \<open>case "0.1"\<close>.\<close>

definition check_v01 :: "string \<Rightarrow> Command \<Rightarrow> error option" where
  "check_v01 v cmd =
     (if RunOnce cmd
      then Some (ErrMustUpdate (''command.run_once is not supported in Supfile v'' @ v))
      else None)"

text \<open>The bodies of the two loops of \<open>case "0.2"\<close>.\<close>

definition check_v02 :: "string \<Rightarrow> Command \<Rightarrow> error option" where
  "check_v02 v cmd =
     (if Once cmd
      then Some (ErrMustUpdate (''command.once is not supported in Supfile v'' @ v))
      else if Local cmd
      then Some (ErrMustUpdate (''command.local is not supported in Supfile v'' @ v))
      else if Serial cmd \<noteq> 0
      then Some (ErrMustUpdate (''command.serial is not supported in Supfile v'' @ v))
      else None)"

definition check_v02_network :: "string \<Rightarrow> Network \<Rightarrow> error option" where
  "check_v02_network v network =
     (if Inventory network \<noteq> ''''
      then Some (ErrMustUpdate (''network.inventory is not supported in Supfile v'' @ v))
      else None)"

text \<open>
  The loop of \<open>case "0.3"\<close>: the state is the local \<open>warning\<close> and the map
  \<open>conf.Commands.cmds\<close>, which the body writes at the key it is visiting.
\<close>

fun migrate_v03 :: "string \<Rightarrow> string list \<Rightarrow> string \<times> (string \<rightharpoonup> Command) \<Rightarrow> string \<times> (string \<rightharpoonup> Command)" where
  "migrate_v03 v [] (warning, m) = (warning, m)"
| "migrate_v03 v (key # ks) (warning, m) =
     (case m key of
        None \<Rightarrow> migrate_v03 v ks (warning, m)
      | Some cmd \<Rightarrow>
          if RunOnce cmd
          then migrate_v03 v ks
                 (''Warning: command.run_once was deprecated by command.once in Supfile v'' @ v @ [CHR 0x0A],
                  m(key \<mapsto> cmd\<lparr>Once := True\<rparr>))
          else migrate_v03 v ks (warning, m))"

text \<open>
  The result of the switch is what was written to the standard error stream (one
  element for each \<open>fmt.Fprintln\<close>, which appends a newline) and the returned value.
\<close>

type_synonym load_result = "string list \<times> (error + Supfile)"

definition case_v03 :: "RangeOrders \<Rightarrow> Supfile \<Rightarrow> load_result" where
  "case_v03 ord conf =
     (let (warning, m) = migrate_v03 (Version conf) (cmds_v03 ord) ('''', cmds (Commands conf));
          conf' = conf\<lparr>Commands := (Commands conf)\<lparr>cmds := m\<rparr>\<rparr>
      in (if warning \<noteq> '''' then [warning @ [CHR 0x0A]] else [], Inr conf'))"

definition case_v02 :: "RangeOrders \<Rightarrow> Supfile \<Rightarrow> load_result" where
  "case_v02 ord conf =
     (case range_check (check_v02 (Version conf)) (cmds (Commands conf)) (cmds_v02 ord) of
        Some e \<Rightarrow> ([], Inl e)
      | None \<Rightarrow>
         (case range_check (check_v02_network (Version conf)) (nets (Networks conf)) (nets_v02 ord) of
            Some e \<Rightarrow> ([], Inl e)
          | None \<Rightarrow> case_v03 ord conf))"

definition case_v01 :: "RangeOrders \<Rightarrow> Supfile \<Rightarrow> load_result" where
  "case_v01 ord conf =
     (case range_check (check_v01 (Version conf)) (cmds (Commands conf)) (cmds_v01 ord) of
        Some e \<Rightarrow> ([], Inl e)
      | None \<Rightarrow> case_v02 ord conf)"

definition version_switch :: "RangeOrders \<Rightarrow> Supfile \<Rightarrow> load_result" where
  "version_switch ord conf =
     (if Version conf = '''' then case_v01 ord (conf\<lparr>Version := ''0.1''\<rparr>)
      else if Version conf = ''0.1'' then case_v01 ord conf
      else if Version conf = ''0.2'' then case_v02 ord conf
      else if Version conf = ''0.3'' then case_v03 ord conf
      else if Version conf = ''0.4'' \<or> Version conf = ''0.5'' then ([], Inr conf)
      else ([], Inl (ErrUnsupportedSupfileVersion (''unsupported Supfile version '' @ Version conf))))"

text \<open>
  \<open>yaml.Unmarshal(data, &conf)\<close> belongs to the YAML library; it is a parameter that
  gives the decoded \<open>Supfile\<close> or the decoder's error.
\<close>

definition NewSupfile :: "(string \<Rightarrow> error + Supfile) \<Rightarrow> RangeOrders \<Rightarrow> string \<Rightarrow> load_result" where
  "NewSupfile yaml_Unmarshal ord data =
     (case yaml_Unmarshal data of
        Inl err \<Rightarrow> ([], Inl err)
      | Inr conf \<Rightarrow> version_switch ord conf)"

section \<open>EnvList.ResolveValues\<close>

text \<open>\<open>EnvVar.String\<close> and \<open>EnvVar.AsExport\<close>; \<open>CHR 0x22\<close> is the double quote.\<close>

definition EnvVar_String :: "EnvVar \<Rightarrow> string" where
  "EnvVar_String e = Key e @ ''='' @ Value e"

definition EnvVar_AsExport :: "EnvVar \<Rightarrow> string" where
  "EnvVar_AsExport e = ''export '' @ Key e @ [CHR ''='', CHR 0x22] @ Value e @ [CHR 0x22, CHR '';'']"

definition EnvList_Slice :: "EnvList \<Rightarrow> string list" where
  "EnvList_Slice e = map EnvVar_String e"

text \<open>
  The operating system is a parameter. \<open>Getwd os i\<close> is what \<open>os.Getwd()\<close> returns
  in iteration \<open>i\<close>, and \<open>bash os i dir script\<close> is what \<open>cmd.Output()\<close> returns for
  \<open>bash -c script\<close> run in \<open>dir\<close> in iteration \<open>i\<close>: the captured standard
  output, or the error of a subprocess that failed.
\<close>

record OS =
  Getwd :: "nat \<Rightarrow> error + string"
  bash :: "nat \<Rightarrow> string \<Rightarrow> string \<Rightarrow> error + string"

text \<open>
  The loop of \<open>ResolveValues\<close>, from index \<open>i\<close> on. Its state is the local
  \<open>exports\<close> and the list itself; \<open>trace\<close> records the scripts handed to bash so
  far, in order. The result is the trace, the list as the call leaves it, and the
  returned error (\<open>None\<close> for \<open>nil\<close>).
\<close>

function ResolveValues_loop ::
  "OS \<Rightarrow> nat \<Rightarrow> string \<Rightarrow> string list \<Rightarrow> EnvList \<Rightarrow> string list \<times> EnvList \<times> error option" where
  "ResolveValues_loop os i exports trace e =
     (if i < length e then
        (let v = e ! i;
             exports' = exports @ EnvVar_AsExport v;
             script = exports' @ ''echo -n '' @ Value v @ '';''
         in case Getwd os i of
              Inl err \<Rightarrow> (trace, e, Some err)
            | Inr cwd \<Rightarrow>
               (case bash os i cwd script of
                  Inl err \<Rightarrow>
                    (trace @ [script], e,
                     Some (Wrapf err (''resolving env var '' @ Key v @ '' failed'')))
                | Inr resolvedValue \<Rightarrow>
                    ResolveValues_loop os (Suc i) exports' (trace @ [script])
                      (e[i := v\<lparr>Value := resolvedValue\<rparr>])))
      else (trace, e, None))"
  by pat_completeness auto
termination
  by (relation "measure (\<lambda>(os, i, exports, trace, e). length e - i)") auto

definition ResolveValues :: "OS \<Rightarrow> EnvList \<Rightarrow> string list \<times> EnvList \<times> error option" where
  "ResolveValues os e =
     (if length e = 0 then ([], e, None) else ResolveValues_loop os 0 '''' [] e)"

section \<open>NewHost\<close>

text \<open>
  The functions of Go's standard library that \<open>NewHost\<close> calls, on byte strings:
  \<open>strings.Index\<close> and \<open>strings.LastIndex\<close> (\<open>None\<close> for \<open>-1\<close>),
  \<open>strings.Contains\<close>, and \<open>net.SplitHostPort\<close>.
\<close>

definition occurs_at :: "string \<Rightarrow> string \<Rightarrow> nat \<Rightarrow> bool" where
  "occurs_at s substr i \<longleftrightarrow> take (length substr) (drop i s) = substr"

definition Index :: "string \<Rightarrow> string \<Rightarrow> nat option" where
  "Index s substr = find (occurs_at s substr) [0..<Suc (length s)]"

definition LastIndex :: "string \<Rightarrow> string \<Rightarrow> nat option" where
  "LastIndex s substr = find (occurs_at s substr) (rev [0..<Suc (length s)])"

definition Contains :: "string \<Rightarrow> string \<Rightarrow> bool" where
  "Contains s substr \<longleftrightarrow> Index s substr \<noteq> None"

definition SplitHostPort :: "string \<Rightarrow> error + string \<times> string" where
  "SplitHostPort hostport =
     (case LastIndex hostport '':'' of
        None \<Rightarrow> Inl (AddrError ''missing port in address'' hostport)
      | Some i \<Rightarrow>
         (let bracketed =
                (if take 1 hostport = ''[''
                 then (case Index hostport '']'' of
                         None \<Rightarrow> Inl (AddrError ''missing ']' in address'' hostport)
                       | Some end \<Rightarrow>
                           if end + 1 = length hostport
                           then Inl (AddrError ''missing port in address'' hostport)
                           else if end + 1 = i
                           then Inr (take (end - 1) (drop 1 hostport), 1, end + 1)
                           else if hostport ! (end + 1) = CHR '':''
                           then Inl (AddrError ''too many colons in address'' hostport)
                           else Inl (AddrError ''missing port in address'' hostport))
                 else if Contains (take i hostport) '':''
                 then Inl (AddrError ''too many colons in address'' hostport)
                 else Inr (take i hostport, 0, 0))
          in case bracketed of
               Inl err \<Rightarrow> Inl err
             | Inr (host, j, k) \<Rightarrow>
                 if Contains (drop j hostport) ''[''
                 then Inl (AddrError ''unexpected '[' in address'' hostport)
                 else if Contains (drop k hostport) '']''
                 then Inl (AddrError ''unexpected ']' in address'' hostport)
                 else Inr (host, drop (i + 1) hostport)))"

text \<open>\<open>fmt.Sprintf("%d", n)\<close>: the decimal digits of \<open>n\<close>, after a minus sign if negative.\<close>

function decimal :: "nat \<Rightarrow> string" where
  "decimal n = (if n < 10 then [char_of (48 + n)] else decimal (n div 10) @ [char_of (48 + n mod 10)])"
  by pat_completeness auto
termination
  by (relation "measure id") auto

definition Sprintf_d :: "int \<Rightarrow> string" where
  "Sprintf_d n = (if n < 0 then ''-'' @ decimal (nat (- n)) else decimal (nat n))"

text \<open>
  \<open>NewHost\<close>. Its surroundings are parameters: \<open>user_Current\<close> is the
  \<open>Username\<close> that \<open>user.Current()\<close> gives, or its error;
  \<open>extractedHostSSHConfig\<close> is the package's lookup table and \<open>ResolvePath\<close> the
  package's path normalisation, both declared outside this file. Indexing
  \<open>conf.Host[0]\<close> panics on an entry without an alias.
\<close>

definition NewHost ::
  "(error + string) \<Rightarrow> (string \<rightharpoonup> SSHHost) \<Rightarrow> (string \<Rightarrow> string) \<Rightarrow> string \<Rightarrow> error + Host" where
  "NewHost user_Current extractedHostSSHConfig ResolvePath hostStr =
     (let hostStr1 = (if length hostStr > 6 \<and> take 6 hostStr = ''ssh://'' then drop 6 hostStr else hostStr);
          (user, hostStr2) =
             (case LastIndex hostStr1 ''@'' of
                Some at \<Rightarrow> (take at hostStr1, drop (at + 1) hostStr1)
              | None \<Rightarrow> ('''', hostStr1))
      in case (if user = '''' then user_Current else Inr user) of
           Inl err \<Rightarrow> Inl err
         | Inr user' \<Rightarrow>
            if Contains hostStr2 ''/'' then Inl (Errorf ''unexpected slash in the host URL'')
            else
              (case (if Contains hostStr2 '':'' then SplitHostPort hostStr2 else Inr (hostStr2, ''22'')) of
                 Inl err \<Rightarrow> Inl err
               | Inr (address, port) \<Rightarrow>
                  (case extractedHostSSHConfig address of
                     None \<Rightarrow>
                       Inr \<lparr>Address = address, Port = port, User = user',
                            IdentityFile = '''', KnownAs = '''', Bastion = ''''\<rparr>
                   | Some conf \<Rightarrow>
                      (case SSHHost.Host conf of
                         [] \<Rightarrow> Inl (Panic ''index out of range'')
                       | alias # _ \<Rightarrow>
                           Inr \<lparr>Address = HostName conf, Port = Sprintf_d (SSHHost.Port conf),
                                User = SSHHost.User conf,
                                IdentityFile = ResolvePath (SSHHost.IdentityFile conf),
                                KnownAs = alias, Bastion = ProxyJump conf\<rparr>))))"

section \<open>The UnmarshalYAML methods of the three collections\<close>

text \<open>
  The argument \<open>unmarshal\<close> of an \<open>UnmarshalYAML\<close> method is a closure of the YAML
  library over the node being decoded. The methods call it twice, with targets of two
  types, so the model of the closure has one component for each: \<open>into_map\<close> decodes
  into the map that the field holds so far, \<open>into_MapSlice\<close> decodes into a fresh
  \<open>yaml.MapSlice\<close>.
\<close>

record 'v unmarshal =
  into_map :: "(string \<rightharpoonup> 'v) \<Rightarrow> error + (string \<rightharpoonup> 'v)"
  into_MapSlice :: "error + MapItem list"

text \<open>
  The loop \<open>Names[i] = item.Key.(string)\<close> over the items: the type assertion panics
  at the first key that is not a string.
\<close>

fun key_strings :: "MapItem list \<Rightarrow> error + string list" where
  "key_strings [] = Inr []"
| "key_strings (item # items) =
     (case MapItem.Key item of
        IString name \<Rightarrow>
          (case key_strings items of Inl err \<Rightarrow> Inl err | Inr names \<Rightarrow> Inr (name # names))
      | _ \<Rightarrow> Inl (Panic ''interface conversion: interface {} is not string''))"

definition Networks_UnmarshalYAML :: "Network unmarshal \<Rightarrow> Networks \<Rightarrow> error + Networks" where
  "Networks_UnmarshalYAML unmarshal n =
     (case into_map unmarshal (nets n) of
        Inl err \<Rightarrow> Inl err
      | Inr m \<Rightarrow>
         (case into_MapSlice unmarshal of
            Inl err \<Rightarrow> Inl err
          | Inr items \<Rightarrow>
             (case key_strings items of
                Inl err \<Rightarrow> Inl err
              | Inr names \<Rightarrow> Inr (n\<lparr>Networks.Names := names, nets := m\<rparr>))))"

definition Commands_UnmarshalYAML :: "Command unmarshal \<Rightarrow> Commands \<Rightarrow> error + Commands" where
  "Commands_UnmarshalYAML unmarshal c =
     (case into_map unmarshal (cmds c) of
        Inl err \<Rightarrow> Inl err
      | Inr m \<Rightarrow>
         (case into_MapSlice unmarshal of
            Inl err \<Rightarrow> Inl err
          | Inr items \<Rightarrow>
             (case key_strings items of
                Inl err \<Rightarrow> Inl err
              | Inr names \<Rightarrow> Inr (c\<lparr>Commands.Names := names, cmds := m\<rparr>))))"

definition Targets_UnmarshalYAML :: "(string list) unmarshal \<Rightarrow> Targets \<Rightarrow> error + Targets" where
  "Targets_UnmarshalYAML unmarshal t =
     (case into_map unmarshal (targets t) of
        Inl err \<Rightarrow> Inl err
      | Inr m \<Rightarrow>
         (case into_MapSlice unmarshal of
            Inl err \<Rightarrow> Inl err
          | Inr items \<Rightarrow>
             (case key_strings items of
                Inl err \<Rightarrow> Inl err
              | Inr names \<Rightarrow> Inr (t\<lparr>Targets.Names := names, targets := m\<rparr>))))"

text \<open>
  The closure that the YAML library hands over for a mapping node. The node is given
  by its entries in the order the document declares them, \<open>doc\<close>. Decoding into a
  \<open>yaml.MapSlice\<close> keeps that order (the library's contract for \<open>MapSlice\<close>); how
  the library decodes into a Go map, what it refuses there and in which order it fills
  the map is left open: it is the parameter \<open>decode_map\<close>.
\<close>

definition mapping_unmarshal ::
  "(MapItem list \<Rightarrow> (string \<rightharpoonup> 'v) \<Rightarrow> error + (string \<rightharpoonup> 'v)) \<Rightarrow> MapItem list \<Rightarrow> 'v unmarshal" where
  "mapping_unmarshal decode_map doc = \<lparr>into_map = decode_map doc, into_MapSlice = Inr doc\<rparr>"

text \<open>
  The names a mapping declares, each at the place of its first declaration: what the
  spec calls first-declaration order.
\<close>

fun first_declared :: "'a list \<Rightarrow> 'a list" where
  "first_declared [] = []"
| "first_declared (x # xs) = x # first_declared (filter (\<lambda>y. y \<noteq> x) xs)"

section \<open>Network.ParseInventory\<close>

text \<open>
  \<open>strings.TrimSpace\<close> removes the leading and the trailing white space of a string,
  as Unicode defines it: the runes for which \<open>unicode.IsSpace\<close> holds, U+0009 to
  U+000D, U+0020, U+0085, U+00A0, U+1680, U+2000 to U+200A, U+2028, U+2029, U+202F,
  U+205F and U+3000. \<open>white_space\<close> lists their UTF-8 encodings. Bytes that are not
  valid UTF-8 decode to U+FFFD, which is no white space.
\<close>

definition white_space :: "string list" where
  "white_space =
     [[CHR 0x09], [CHR 0x0A], [CHR 0x0B], [CHR 0x0C], [CHR 0x0D], [CHR 0x20],
      [CHR 0xC2, CHR 0x85], [CHR 0xC2, CHR 0xA0],
      [CHR 0xE1, CHR 0x9A, CHR 0x80],
      [CHR 0xE2, CHR 0x80, CHR 0x80], [CHR 0xE2, CHR 0x80, CHR 0x81],
      [CHR 0xE2, CHR 0x80, CHR 0x82], [CHR 0xE2, CHR 0x80, CHR 0x83],
      [CHR 0xE2, CHR 0x80, CHR 0x84], [CHR 0xE2, CHR 0x80, CHR 0x85],
      [CHR 0xE2, CHR 0x80, CHR 0x86], [CHR 0xE2, CHR 0x80, CHR 0x87],
      [CHR 0xE2, CHR 0x80, CHR 0x88], [CHR 0xE2, CHR 0x80, CHR 0x89],
      [CHR 0xE2, CHR 0x80, CHR 0x8A],
      [CHR 0xE2, CHR 0x80, CHR 0xA8], [CHR 0xE2, CHR 0x80, CHR 0xA9],
      [CHR 0xE2, CHR 0x80, CHR 0xAF],
      [CHR 0xE2, CHR 0x81, CHR 0x9F],
      [CHR 0xE3, CHR 0x80, CHR 0x80]]"

definition leading_space :: "string \<Rightarrow> string option" where
  "leading_space s = find (\<lambda>w. take (length w) s = w) white_space"

definition trailing_space :: "string \<Rightarrow> string option" where
  "trailing_space s = find (\<lambda>w. length w \<le> length s \<and> drop (length s - length w) s = w) white_space"

function TrimLeft_IsSpace :: "string \<Rightarrow> string" where
  "TrimLeft_IsSpace s =
     (case leading_space s of
        None \<Rightarrow> s
      | Some w \<Rightarrow> TrimLeft_IsSpace (drop (length w) s))"
  by pat_completeness auto
termination
proof (relation "measure length")
  show "wf (measure length)" by simp
next
  fix s w :: string
  assume "leading_space s = Some w"
  then have "w \<in> set white_space" and w: "take (length w) s = w"
    by (auto simp: leading_space_def find_Some_iff)
  then have "w \<noteq> []"
    by (auto simp: white_space_def)
  moreover from arg_cong [OF w, of length] have "length w \<le> length s"
    by simp
  ultimately show "(drop (length w) s, s) \<in> measure length"
    by (cases w) auto
qed

function TrimRight_IsSpace :: "string \<Rightarrow> string" where
  "TrimRight_IsSpace s =
     (case trailing_space s of
        None \<Rightarrow> s
      | Some w \<Rightarrow> TrimRight_IsSpace (take (length s - length w) s))"
  by pat_completeness auto
termination
proof (relation "measure length")
  show "wf (measure length)" by simp
next
  fix s w :: string
  assume "trailing_space s = Some w"
  then have "w \<in> set white_space" and w: "length w \<le> length s"
    by (auto simp: trailing_space_def find_Some_iff)
  then have "w \<noteq> []"
    by (auto simp: white_space_def)
  with w show "(take (length s - length w) s, s) \<in> measure length"
    by (cases w) auto
qed

definition TrimSpace :: "string \<Rightarrow> string" where
  "TrimSpace s = TrimRight_IsSpace (TrimLeft_IsSpace s)"

text \<open>
  \<open>bytes.Buffer.ReadString(delim)\<close>: the bytes up to and including the first
  \<open>delim\<close>, and what is left in the buffer; without a \<open>delim\<close> in the buffer, all
  of it, and \<open>io.EOF\<close> (the flag). A buffer's \<open>ReadString\<close> fails in no other way.
\<close>

definition ReadString :: "string \<Rightarrow> char \<Rightarrow> string \<times> string \<times> bool" where
  "ReadString buf delim =
     (if delim \<in> set buf
      then (takeWhile (\<lambda>c. c \<noteq> delim) buf @ [delim], tl (dropWhile (\<lambda>c. c \<noteq> delim) buf), False)
      else (buf, [], True))"

text \<open>The loop of \<open>ParseInventory\<close>; its state is the buffer and \<open>hosts\<close>.\<close>

function ParseInventory_loop :: "string \<Rightarrow> Host list \<Rightarrow> Host list" where
  "ParseInventory_loop buf hosts =
     (case ReadString buf (CHR 0x0A) of
        (host, buf', eof) \<Rightarrow>
          if eof then hosts
          else (let host = TrimSpace host
                in if host = '''' \<or> take 1 host = ''#''
                   then ParseInventory_loop buf' hosts
                   else ParseInventory_loop buf'
                          (hosts @ [\<lparr>Address = host, Port = '''', User = '''',
                                     IdentityFile = '''', KnownAs = '''', Bastion = ''''\<rparr>])))"
  by pat_completeness auto
termination
proof -
  have shorter: "length (tl (dropWhile (\<lambda>c. c \<noteq> d) buf)) < length buf"
    if "d \<in> set buf" for d :: char and buf
  proof (cases "dropWhile (\<lambda>c. c \<noteq> d) buf")
    case Nil
    then have "\<forall>x\<in>set buf. x \<noteq> d" by simp
    with that show ?thesis by blast
  next
    case (Cons c cs)
    have "length (dropWhile (\<lambda>c. c \<noteq> d) buf) \<le> length buf"
      by (rule length_dropWhile_le)
    with Cons show ?thesis by simp
  qed
  show ?thesis
    by (relation "measure (\<lambda>(buf, hosts). length buf)")
       (auto simp: ReadString_def shorter simp del: length_tl split: if_splits)
qed

text \<open>
  \<open>ParseInventory\<close>. \<open>os_Environ\<close> is the environment of the process and
  \<open>sh env script\<close> is what \<open>cmd.Output()\<close> returns for \<open>/bin/sh -c script\<close> run
  with the environment \<open>env\<close>. A \<open>nil\<close> slice of hosts is the empty list.
\<close>

definition ParseInventory ::
  "string list \<Rightarrow> (string list \<Rightarrow> string \<Rightarrow> error + string) \<Rightarrow> Network \<Rightarrow> error + Host list" where
  "ParseInventory os_Environ sh n =
     (if Inventory n = '''' then Inr []
      else (case sh (os_Environ @ EnvList_Slice (Network.Env n)) (Inventory n) of
              Inl err \<Rightarrow> Inl err
            | Inr output \<Rightarrow> Inr (ParseInventory_loop output [])))"

section \<open>Reference definitions and sample surroundings\<close>

text \<open>
  The recursion equations of the loops are unfolded by hand, one iteration at a time.
\<close>

declare ResolveValues_loop.simps [simp del]
declare decimal.simps [simp del]
declare TrimLeft_IsSpace.simps [simp del]
declare TrimRight_IsSpace.simps [simp del]
declare ParseInventory_loop.simps [simp del]

text \<open>
  The zero values of \<open>Command\<close>, \<open>Network\<close> and \<open>Supfile\<close> (a \<open>nil\<close> map has no
  entry; a \<open>nil\<close> slice is the empty list), from which the YAML decoder starts, and a
  decoder that yields a given \<open>Supfile\<close>. The sample documents below are built from
  them.
\<close>

definition zero_Command :: Command where
  "zero_Command =
     \<lparr>Name = '''', Desc = '''', Local = False, Run = '''', Script = '''', Upload = [],
      Stdin = False, Once = False, Serial = 0, RunOnce = False\<rparr>"

definition zero_Network :: Network where
  "zero_Network =
     \<lparr>Network.Env = [], Inventory = '''', Hosts = [], HostsFromConfig = [],
      Network.Bastion = ''''\<rparr>"

definition zero_Supfile :: Supfile where
  "zero_Supfile =
     \<lparr>Networks = \<lparr>Networks.Names = [], nets = Map.empty\<rparr>,
      Commands = \<lparr>Commands.Names = [], cmds = Map.empty\<rparr>,
      Targets = \<lparr>Names = [], targets = Map.empty\<rparr>,
      Env = [], Version = ''''\<rparr>"

definition decoded_as :: "Supfile \<Rightarrow> string \<Rightarrow> error + Supfile" where
  "decoded_as conf data = Inr conf"

text \<open>
  A document with the single command \<open>deploy\<close>, and one with the two commands
  \<open>build\<close> and \<open>deploy\<close>, as decoded; and the orders in which such a map can be
  ranged over.
\<close>

definition one_command :: "string \<Rightarrow> Command \<Rightarrow> Supfile" where
  "one_command version cmd =
     zero_Supfile\<lparr>Commands := \<lparr>Commands.Names = [''deploy''], cmds = [''deploy'' \<mapsto> cmd]\<rparr>,
                  Version := version\<rparr>"

definition two_commands :: "string \<Rightarrow> Command \<Rightarrow> Command \<Rightarrow> Supfile" where
  "two_commands version cmd1 cmd2 =
     zero_Supfile\<lparr>Commands := \<lparr>Commands.Names = [''build'', ''deploy''],
                               cmds = [''build'' \<mapsto> cmd1, ''deploy'' \<mapsto> cmd2]\<rparr>,
                  Version := version\<rparr>"

definition ranged :: "string list \<Rightarrow> RangeOrders" where
  "ranged ks = \<lparr>cmds_v01 = ks, cmds_v02 = rev ks, nets_v02 = [], cmds_v03 = ks\<rparr>"

text \<open>
  The script that the spec describes for entry \<open>i\<close> of a list \<open>e\<close> as it is before
  the call: the export statements of the entries \<open>0..i\<close> with the values they have
  then, followed by \<open>echo -n\<close> of the value of entry \<open>i\<close>.
\<close>

definition spec_script :: "EnvList \<Rightarrow> nat \<Rightarrow> string" where
  "spec_script e i =
     concat (map EnvVar_AsExport (take (Suc i) e)) @ ''echo -n '' @ Value (e ! i) @ '';''"

text \<open>
  An operating system for the sample runs: the working directory is \<open>/\<close>, and bash
  answers the scripts of a table; any other script fails.
\<close>

definition scripted_bash ::
  "(string \<times> (error + string)) list \<Rightarrow> nat \<Rightarrow> string \<Rightarrow> string \<Rightarrow> error + string" where
  "scripted_bash table i dir script =
     (case map_of table script of
        Some answer \<Rightarrow> answer
      | None \<Rightarrow> Inl (External ''exit status 127''))"

definition root_dir :: "nat \<Rightarrow> error + string" where
  "root_dir i = Inr ''/''"

definition scripted_os :: "(string \<times> (error + string)) list \<Rightarrow> OS" where
  "scripted_os table = \<lparr>Getwd = root_dir, bash = scripted_bash table\<rparr>"

text \<open>
  The chain \<open>[FOO=bar, BAZ=$FOO-baz]\<close> of the spec, the two scripts that its
  resolution hands to bash, and the chain \<open>[FOO=bar, BAD=x; exit 1]\<close>, whose second
  script ends in \<open>exit 1\<close>, with the table of what bash answers to their scripts.
\<close>

definition FOO_BAZ :: EnvList where
  "FOO_BAZ = [\<lparr>Key = ''FOO'', Value = ''bar''\<rparr>, \<lparr>Key = ''BAZ'', Value = ''$FOO-baz''\<rparr>]"

definition FOO_script :: string where
  \<open>FOO_script = ''export FOO="bar";echo -n bar;''\<close>

definition BAZ_script :: string where
  \<open>BAZ_script = ''export FOO="bar";export BAZ="$FOO-baz";echo -n $FOO-baz;''\<close>

definition FOO_BAD :: EnvList where
  "FOO_BAD = [\<lparr>Key = ''FOO'', Value = ''bar''\<rparr>, \<lparr>Key = ''BAD'', Value = ''x; exit 1''\<rparr>]"

definition BAD_script :: string where
  \<open>BAD_script = ''export FOO="bar";export BAD="x; exit 1";echo -n x; exit 1;''\<close>

definition bash_answers :: "(string \<times> (error + string)) list" where
  "bash_answers =
     [(FOO_script, Inr ''bar''), (BAZ_script, Inr ''bar-baz''),
      (BAD_script, Inl (External ''exit status 1''))]"

text \<open>
  A map decoder for the sample documents: it accepts every mapping and yields a given
  map. And the host that \<open>ParseInventory\<close> builds from an address alone.
\<close>

definition decodes_to :: "(string \<rightharpoonup> 'v) \<Rightarrow> MapItem list \<Rightarrow> (string \<rightharpoonup> 'v) \<Rightarrow> error + (string \<rightharpoonup> 'v)" where
  "decodes_to m doc old = Inr m"

definition address_only :: "string \<Rightarrow> Host" where
  "address_only address =
     \<lparr>Address = address, Port = '''', User = '''', IdentityFile = '''', KnownAs = '''', Bastion = ''''\<rparr>"

text \<open>
  The reading of the inventory output that the spec gives: the output is cut into
  lines, each line going up to and including its newline and the last line being what
  follows the last newline, if anything does; every line is trimmed; blank lines and
  lines starting with \<open>#\<close> are skipped; each line left becomes a host with that
  address only.
\<close>

fun spec_lines :: "string \<Rightarrow> string list" where
  "spec_lines [] = []"
| "spec_lines (c # cs) =
     (if c = CHR 0x0A then [c] # spec_lines cs
      else (case spec_lines cs of [] \<Rightarrow> [[c]] | line # lines \<Rightarrow> (c # line) # lines))"

definition spec_inventory :: "string \<Rightarrow> Host list" where
  "spec_inventory output =
     map address_only
       (filter (\<lambda>host. host \<noteq> '''' \<and> take 1 host \<noteq> ''#'') (map TrimSpace (spec_lines output)))"

text \<open>An inventory command whose standard output is a given text.\<close>

definition prints :: "string \<Rightarrow> string list \<Rightarrow> string \<Rightarrow> error + string" where
  "prints output env script = Inr output"

text \<open>
  The strings of the grammar \<open>[ssh://][user@]host[:port]\<close>, from their parts, and
  the strings that can stand for a host or a port in it: those free of the characters
  that delimit the parts and of the brackets that \<open>net.SplitHostPort\<close> gives a
  meaning to.
\<close>

definition host_string :: "bool \<Rightarrow> string option \<Rightarrow> string \<Rightarrow> string option \<Rightarrow> string" where
  "host_string scheme user host port =
     (if scheme then ''ssh://'' else '''')
     @ (case user of None \<Rightarrow> '''' | Some u \<Rightarrow> u @ ''@'')
     @ host
     @ (case port of None \<Rightarrow> '''' | Some p \<Rightarrow> '':'' @ p)"

definition plain :: "string \<Rightarrow> bool" where
  "plain s \<longleftrightarrow> set s \<inter> {CHR ''@'', CHR ''/'', CHR '':'', CHR ''['', CHR '']''} = {}"

text \<open>An SSH-config lookup table without entries.\<close>

definition no_ssh_config :: "string \<rightharpoonup> SSHHost" where
  "no_ssh_config = Map.empty"

text \<open>
  For the sample mappings: the zero value of \<open>Commands\<close>, an entry of a mapping
  with a given name, and the map that a decoder which lets a later entry replace an
  earlier one of the same name leaves for the names \<open>deploy\<close> and \<open>build\<close>.
  \<open>yaml.Unmarshal\<close>, which \<open>NewSupfile\<close> calls, is the library's non-strict
  decoder: a repeated name is no error to it.
\<close>

definition zero_Commands :: Commands where
  "zero_Commands = \<lparr>Commands.Names = [], cmds = Map.empty\<rparr>"

definition entry :: "string \<Rightarrow> MapItem" where
  "entry name = \<lparr>MapItem.Key = IString name, MapItem.Value = INil\<rparr>"

definition deploy_build :: "string \<rightharpoonup> Command" where
  "deploy_build = [''deploy'' \<mapsto> zero_Command, ''build'' \<mapsto> zero_Command]"

section \<open>Properties of the version switch\<close>

lemma range_check_None:
  "range_check f m ks = None \<longleftrightarrow> (\<forall>k\<in>set ks. \<forall>v. m k = Some v \<longrightarrow> f v = None)"
  by (induction ks) (auto split: option.splits)

lemma range_check_Some:
  "range_check f m ks = Some e \<Longrightarrow> \<exists>k\<in>set ks. \<exists>v. m k = Some v \<and> f v = Some e"
  by (induction ks) (auto split: option.splits)

lemma check_v01_kind: "check_v01 v cmd = Some e \<Longrightarrow> \<exists>msg. e = ErrMustUpdate msg"
  by (auto simp: check_v01_def split: if_splits)

lemma check_v02_kind: "check_v02 v cmd = Some e \<Longrightarrow> \<exists>msg. e = ErrMustUpdate msg"
  by (auto simp: check_v02_def split: if_splits)

lemma check_v02_network_kind: "check_v02_network v n = Some e \<Longrightarrow> \<exists>msg. e = ErrMustUpdate msg"
  by (auto simp: check_v02_network_def split: if_splits)

lemma migrate_v03_map:
  "distinct ks \<Longrightarrow>
   snd (migrate_v03 v ks (w, m)) k =
     (if k \<in> set ks then map_option (\<lambda>cmd. if RunOnce cmd then cmd\<lparr>Once := True\<rparr> else cmd) (m k)
      else m k)"
proof (induction ks arbitrary: w m)
  case Nil
  then show ?case by simp
next
  case (Cons a ks)
  then show ?case
    by (cases "m a") (auto simp: map_option_case split: option.splits)
qed

lemma migrate_v03_warning:
  "distinct ks \<Longrightarrow>
   fst (migrate_v03 v ks (w, m)) =
     (if \<exists>k\<in>set ks. \<exists>cmd. m k = Some cmd \<and> RunOnce cmd
      then ''Warning: command.run_once was deprecated by command.once in Supfile v'' @ v @ [CHR 0x0A]
      else w)"
proof (induction ks arbitrary: w m)
  case Nil
  then show ?case by simp
next
  case (Cons a ks)
  show ?case
  proof (cases "m a")
    case None
    with Cons show ?thesis by auto
  next
    case (Some cmd)
    show ?thesis
    proof (cases "RunOnce cmd")
      case True
      have "\<And>k. k \<in> set ks \<Longrightarrow> (m(a \<mapsto> cmd\<lparr>Once := True\<rparr>)) k = m k"
        using Cons.prems by auto
      with Cons Some True show ?thesis by auto
    next
      case False
      with Cons Some show ?thesis by auto
    qed
  qed
qed

text \<open>
  C7. A document whose declared version is none of the empty string, 0.1, 0.2, 0.3,
  0.4 and 0.5 is refused with \<open>ErrUnsupportedSupfileVersion\<close>, whatever else it holds
  and in whatever order its maps are ranged over; nothing is written to the standard
  error stream, and the error is not an \<open>ErrMustUpdate\<close>.
\<close>

theorem unsupported_version:
  assumes "yaml_Unmarshal data = Inr conf"
    and "Version conf \<notin> {'''', ''0.1'', ''0.2'', ''0.3'', ''0.4'', ''0.5''}"
  shows "NewSupfile yaml_Unmarshal ord data =
           ([], Inl (ErrUnsupportedSupfileVersion (''unsupported Supfile version '' @ Version conf)))
         \<and> (\<forall>msg. snd (NewSupfile yaml_Unmarshal ord data) \<noteq> Inl (ErrMustUpdate msg))"
  using assms by (simp add: NewSupfile_def version_switch_def)

theorem unsupported_version_witness:
  "decoded_as (one_command ''9.9'' zero_Command) ''version: 9.9'' = Inr (one_command ''9.9'' zero_Command)
   \<and> Version (one_command ''9.9'' zero_Command) \<notin> {'''', ''0.1'', ''0.2'', ''0.3'', ''0.4'', ''0.5''}
   \<and> NewSupfile (decoded_as (one_command ''9.9'' zero_Command)) (ranged [''deploy'']) ''version: 9.9'' =
        ([], Inl (ErrUnsupportedSupfileVersion ''unsupported Supfile version 9.9''))"
proof -
  have d: "decoded_as (one_command ''9.9'' zero_Command) ''version: 9.9'' = Inr (one_command ''9.9'' zero_Command)"
    by (simp add: decoded_as_def)
  have v: "Version (one_command ''9.9'' zero_Command) \<notin> {'''', ''0.1'', ''0.2'', ''0.3'', ''0.4'', ''0.5''}"
    by (simp add: one_command_def)
  from unsupported_version
         [where yaml_Unmarshal = "decoded_as (one_command ''9.9'' zero_Command)"
            and data = "''version: 9.9''" and conf = "one_command ''9.9'' zero_Command"
            and ord = "ranged [''deploy'']"] d v
  show ?thesis
    by (simp add: one_command_def)
qed

text \<open>
  C4. A document that declares version 0.2, 0.1 or none, and in which some command
  has \<open>once\<close> or \<open>local\<close> set or a non-zero \<open>serial\<close>, or some network declares
  an inventory command, is refused with an \<open>ErrMustUpdate\<close>, in whatever order the
  maps are ranged over; the same document declaring version 0.4 is accepted and
  returned as decoded.
\<close>

theorem must_update_below_v03:
  assumes "yaml_Unmarshal data = Inr conf"
    and "yaml_Unmarshal data' = Inr (conf\<lparr>Version := ''0.4''\<rparr>)"
    and "range_orders ord conf"
    and "Version conf \<in> {'''', ''0.1'', ''0.2''}"
    and "(\<exists>name cmd. cmds (Commands conf) name = Some cmd \<and> (Once cmd \<or> Local cmd \<or> Serial cmd \<noteq> 0))
         \<or> (\<exists>name network. nets (Networks conf) name = Some network \<and> Inventory network \<noteq> '''')"
  shows "(\<exists>msg. NewSupfile yaml_Unmarshal ord data = ([], Inl (ErrMustUpdate msg)))
         \<and> NewSupfile yaml_Unmarshal ord' data' = ([], Inr (conf\<lparr>Version := ''0.4''\<rparr>))"
proof -
  define v where "v = (if Version conf = '''' then ''0.1'' else Version conf)"
  define conf1 where "conf1 = conf\<lparr>Version := v\<rparr>"
  have c2: "range_order (cmds_v02 ord) (cmds (Commands conf1))"
    and n2: "range_order (nets_v02 ord) (nets (Networks conf1))"
    using assms(3) by (simp_all add: range_orders_def conf1_def)
  have bad: "range_check (check_v02 v) (cmds (Commands conf1)) (cmds_v02 ord) \<noteq> None
             \<or> range_check (check_v02_network v) (nets (Networks conf1)) (nets_v02 ord) \<noteq> None"
    using assms(5)
  proof
    assume "\<exists>name cmd. cmds (Commands conf) name = Some cmd \<and> (Once cmd \<or> Local cmd \<or> Serial cmd \<noteq> 0)"
    then obtain name cmd where "cmds (Commands conf1) name = Some cmd"
      and "Once cmd \<or> Local cmd \<or> Serial cmd \<noteq> 0"
      by (auto simp: conf1_def)
    moreover from this c2 have "name \<in> set (cmds_v02 ord)"
      by (auto simp: range_order_def)
    moreover from calculation have "check_v02 v cmd \<noteq> None"
      by (auto simp: check_v02_def)
    ultimately show ?thesis
      by (auto simp: range_check_None)
  next
    assume "\<exists>name network. nets (Networks conf) name = Some network \<and> Inventory network \<noteq> ''''"
    then obtain name network where "nets (Networks conf1) name = Some network"
      and "Inventory network \<noteq> ''''"
      by (auto simp: conf1_def)
    moreover from this n2 have "name \<in> set (nets_v02 ord)"
      by (auto simp: range_order_def)
    moreover from calculation have "check_v02_network v network \<noteq> None"
      by (auto simp: check_v02_network_def)
    ultimately show ?thesis
      by (auto simp: range_check_None)
  qed
  have v1: "Version conf1 = v"
    by (simp add: conf1_def)
  have two: "\<exists>msg. case_v02 ord conf1 = ([], Inl (ErrMustUpdate msg))"
  proof (cases "range_check (check_v02 v) (cmds (Commands conf1)) (cmds_v02 ord)")
    case (Some e)
    then obtain msg where "e = ErrMustUpdate msg"
      using range_check_Some check_v02_kind by blast
    with Some v1 show ?thesis
      by (simp add: case_v02_def)
  next
    case None
    with bad obtain e where
      e: "range_check (check_v02_network v) (nets (Networks conf1)) (nets_v02 ord) = Some e"
      by auto
    then obtain msg where "e = ErrMustUpdate msg"
      using range_check_Some check_v02_network_kind by blast
    with None e v1 show ?thesis
      by (simp add: case_v02_def)
  qed
  have one: "\<exists>msg. case_v01 ord conf1 = ([], Inl (ErrMustUpdate msg))"
  proof (cases "range_check (check_v01 v) (cmds (Commands conf1)) (cmds_v01 ord)")
    case (Some e)
    then obtain msg where "e = ErrMustUpdate msg"
      using range_check_Some check_v01_kind by blast
    with Some v1 show ?thesis
      by (simp add: case_v01_def)
  next
    case None
    with two v1 show ?thesis
      by (simp add: case_v01_def)
  qed
  have "version_switch ord conf = case_v01 ord conf1 \<or> version_switch ord conf = case_v02 ord conf1"
    using assms(4) by (auto simp: version_switch_def conf1_def v_def)
  with one two have "\<exists>msg. version_switch ord conf = ([], Inl (ErrMustUpdate msg))"
    by auto
  moreover have "version_switch ord' (conf\<lparr>Version := ''0.4''\<rparr>) = ([], Inr (conf\<lparr>Version := ''0.4''\<rparr>))"
    by (simp add: version_switch_def)
  ultimately show ?thesis
    using assms(1,2) by (simp add: NewSupfile_def)
qed

theorem must_update_below_v03_witness:
  "range_orders (ranged [''deploy'']) (one_command ''0.2'' (zero_Command\<lparr>Once := True\<rparr>))
   \<and> NewSupfile ((decoded_as (one_command ''0.2'' (zero_Command\<lparr>Once := True\<rparr>)))
                     (''version: 0.4'' := Inr (one_command ''0.4'' (zero_Command\<lparr>Once := True\<rparr>))))
        (ranged [''deploy'']) ''version: 0.2'' =
        ([], Inl (ErrMustUpdate ''command.once is not supported in Supfile v0.2''))
   \<and> NewSupfile ((decoded_as (one_command ''0.2'' (zero_Command\<lparr>Once := True\<rparr>)))
                     (''version: 0.4'' := Inr (one_command ''0.4'' (zero_Command\<lparr>Once := True\<rparr>))))
        (ranged [''deploy'']) ''version: 0.4'' =
        ([], Inr (one_command ''0.4'' (zero_Command\<lparr>Once := True\<rparr>)))"
proof -
  let ?c = "zero_Command\<lparr>Once := True\<rparr>"
  let ?y = "(decoded_as (one_command ''0.2'' ?c))(''version: 0.4'' := Inr (one_command ''0.4'' ?c))"
  have h1: "?y ''version: 0.2'' = Inr (one_command ''0.2'' ?c)"
    by (simp add: decoded_as_def)
  have h2: "?y ''version: 0.4'' = Inr ((one_command ''0.2'' ?c)\<lparr>Version := ''0.4''\<rparr>)"
    by (simp add: one_command_def)
  have h3: "range_orders (ranged [''deploy'']) (one_command ''0.2'' ?c)"
    by (simp add: range_orders_def range_order_def ranged_def one_command_def zero_Supfile_def)
  have h4: "Version (one_command ''0.2'' ?c) \<in> {'''', ''0.1'', ''0.2''}"
    by (simp add: one_command_def)
  have h5: "(\<exists>name cmd. cmds (Commands (one_command ''0.2'' ?c)) name = Some cmd
                \<and> (Once cmd \<or> Local cmd \<or> Serial cmd \<noteq> 0))
            \<or> (\<exists>name network. nets (Networks (one_command ''0.2'' ?c)) name = Some network
                \<and> Inventory network \<noteq> '''')"
    by (rule disjI1, rule exI [of _ "''deploy''"], rule exI [of _ ?c])
       (simp add: one_command_def)
  from must_update_below_v03
         [where yaml_Unmarshal = ?y and data = "''version: 0.2''" and data' = "''version: 0.4''"
            and conf = "one_command ''0.2'' ?c" and ord = "ranged [''deploy'']"
            and ord' = "ranged [''deploy'']", OF h1 h2 h3 h4 h5]
  have "\<exists>msg. NewSupfile ?y (ranged [''deploy'']) ''version: 0.2'' = ([], Inl (ErrMustUpdate msg))"
    and ok: "NewSupfile ?y (ranged [''deploy'']) ''version: 0.4'' =
               ([], Inr ((one_command ''0.2'' ?c)\<lparr>Version := ''0.4''\<rparr>))"
    by simp_all
  then obtain msg where
    msg: "NewSupfile ?y (ranged [''deploy'']) ''version: 0.2'' = ([], Inl (ErrMustUpdate msg))"
    by blast
  have "NewSupfile ?y (ranged [''deploy'']) ''version: 0.2'' =
          ([], Inl (ErrMustUpdate ''command.once is not supported in Supfile v0.2''))"
    by (simp add: NewSupfile_def decoded_as_def version_switch_def case_v02_def check_v02_def
          one_command_def zero_Supfile_def zero_Command_def ranged_def)
  with h3 ok show ?thesis
    by (simp add: one_command_def)
qed

lemma case_v03_result:
  assumes "range_order (cmds_v03 ord) (cmds (Commands conf))"
  shows "case_v03 ord conf =
           (if \<exists>name cmd. cmds (Commands conf) name = Some cmd \<and> RunOnce cmd
            then [''Warning: command.run_once was deprecated by command.once in Supfile v''
                  @ Version conf @ [CHR 0x0A, CHR 0x0A]]
            else [],
            Inr (conf\<lparr>Commands := (Commands conf)
                   \<lparr>cmds := \<lambda>name. map_option (\<lambda>cmd. if RunOnce cmd then cmd\<lparr>Once := True\<rparr> else cmd)
                                     (cmds (Commands conf) name)\<rparr>\<rparr>))"
proof -
  let ?m = "cmds (Commands conf)"
  let ?r = "migrate_v03 (Version conf) (cmds_v03 ord) ('''', ?m)"
  from assms have d: "distinct (cmds_v03 ord)" and s: "set (cmds_v03 ord) = dom ?m"
    by (simp_all add: range_order_def)
  have "snd ?r = (\<lambda>name. map_option (\<lambda>cmd. if RunOnce cmd then cmd\<lparr>Once := True\<rparr> else cmd) (?m name))"
  proof
    fix name
    show "snd ?r name = map_option (\<lambda>cmd. if RunOnce cmd then cmd\<lparr>Once := True\<rparr> else cmd) (?m name)"
      using s by (cases "?m name") (auto simp: migrate_v03_map [OF d] domIff)
  qed
  moreover have "(\<exists>k\<in>set (cmds_v03 ord). \<exists>cmd. ?m k = Some cmd \<and> RunOnce cmd)
                 \<longleftrightarrow> (\<exists>name cmd. ?m name = Some cmd \<and> RunOnce cmd)"
    using s by auto
  then have "fst ?r =
      (if \<exists>name cmd. ?m name = Some cmd \<and> RunOnce cmd
       then ''Warning: command.run_once was deprecated by command.once in Supfile v''
            @ Version conf @ [CHR 0x0A]
       else '''')"
    by (simp only: migrate_v03_warning [OF d])
  ultimately show ?thesis
    by (simp add: case_v03_def case_prod_unfold)
qed

text \<open>
  C2, as amended. A document that declares version 0.3 or lower and passes the rules
  of the earlier versions is accepted. In the result every command that has
  \<open>run_once\<close> set has \<open>once\<close> set as well, and nothing else is changed but the
  default version. One warning is written to the standard error stream if at least
  one command has \<open>run_once\<close> set, however many have, and none otherwise.
\<close>

theorem run_once_migrated:
  assumes "yaml_Unmarshal data = Inr conf"
    and "range_orders ord conf"
    and "Version conf \<in> {'''', ''0.1'', ''0.2'', ''0.3''}"
    and "Version conf \<in> {'''', ''0.1''} \<longrightarrow>
           (\<forall>name cmd. cmds (Commands conf) name = Some cmd \<longrightarrow> \<not> RunOnce cmd)"
    and "Version conf \<in> {'''', ''0.1'', ''0.2''} \<longrightarrow>
           (\<forall>name cmd. cmds (Commands conf) name = Some cmd \<longrightarrow>
              \<not> Once cmd \<and> \<not> Local cmd \<and> Serial cmd = 0)
           \<and> (\<forall>name network. nets (Networks conf) name = Some network \<longrightarrow> Inventory network = '''')"
  shows "NewSupfile yaml_Unmarshal ord data =
           (if \<exists>name cmd. cmds (Commands conf) name = Some cmd \<and> RunOnce cmd
            then [''Warning: command.run_once was deprecated by command.once in Supfile v''
                  @ Version conf @ [CHR 0x0A, CHR 0x0A]]
            else [],
            Inr (conf\<lparr>Commands := (Commands conf)
                   \<lparr>cmds := \<lambda>name. map_option (\<lambda>cmd. if RunOnce cmd then cmd\<lparr>Once := True\<rparr> else cmd)
                                     (cmds (Commands conf) name)\<rparr>,
                   Version := (if Version conf = '''' then ''0.1'' else Version conf)\<rparr>))"
proof -
  define v where "v = (if Version conf = '''' then ''0.1'' else Version conf)"
  define conf1 where "conf1 = conf\<lparr>Version := v\<rparr>"
  have v1: "Version conf1 = v" and c1: "Commands conf1 = Commands conf"
    and n1: "Networks conf1 = Networks conf"
    by (simp_all add: conf1_def)
  have o3: "range_order (cmds_v03 ord) (cmds (Commands conf1))"
    using assms(2) by (simp add: range_orders_def c1)
  have three: "version_switch ord conf = case_v03 ord conf1"
  proof -
    consider "Version conf \<in> {'''', ''0.1''}" | "Version conf = ''0.2''" | "Version conf = ''0.3''"
      using assms(3) by auto
    then show ?thesis
    proof cases
      case 1
      with assms(4,5) have "range_check (check_v01 v) (cmds (Commands conf)) (cmds_v01 ord) = None"
        and "range_check (check_v02 v) (cmds (Commands conf)) (cmds_v02 ord) = None"
        and "range_check (check_v02_network v) (nets (Networks conf)) (nets_v02 ord) = None"
        by (auto simp: range_check_None check_v01_def check_v02_def check_v02_network_def)
      then have "case_v01 ord conf1 = case_v03 ord conf1"
        by (simp add: case_v01_def case_v02_def v1 c1 n1)
      moreover have "conf1 = conf" if "Version conf = ''0.1''"
        using that by (simp add: conf1_def v_def)
      with 1 have "version_switch ord conf = case_v01 ord conf1"
        by (auto simp: version_switch_def conf1_def v_def)
      ultimately show ?thesis by simp
    next
      case 2
      with assms(5) have "range_check (check_v02 v) (cmds (Commands conf)) (cmds_v02 ord) = None"
        and "range_check (check_v02_network v) (nets (Networks conf)) (nets_v02 ord) = None"
        by (auto simp: range_check_None check_v02_def check_v02_network_def)
      then have "case_v02 ord conf1 = case_v03 ord conf1"
        by (simp add: case_v02_def v1 c1 n1)
      moreover from 2 have "conf1 = conf"
        by (simp add: conf1_def v_def)
      with 2 have "version_switch ord conf = case_v02 ord conf1"
        by (simp add: version_switch_def)
      ultimately show ?thesis by simp
    next
      case 3
      then have "conf1 = conf"
        by (simp add: conf1_def v_def)
      with 3 show ?thesis
        by (simp add: version_switch_def)
    qed
  qed
  let ?some = "\<exists>name cmd. cmds (Commands conf) name = Some cmd \<and> RunOnce cmd"
  let ?cs = "(Commands conf)
               \<lparr>cmds := \<lambda>name. map_option (\<lambda>cmd. if RunOnce cmd then cmd\<lparr>Once := True\<rparr> else cmd)
                                 (cmds (Commands conf) name)\<rparr>"
  have r: "case_v03 ord conf1 =
             (if ?some
              then [''Warning: command.run_once was deprecated by command.once in Supfile v''
                    @ v @ [CHR 0x0A, CHR 0x0A]]
              else [],
              Inr (conf1\<lparr>Commands := ?cs\<rparr>))"
    using case_v03_result [OF o3] by (simp only: v1 c1)
  have "\<not> ?some" if "Version conf = ''''"
    using that assms(4) by simp
  then have w: "?some \<longrightarrow> v = Version conf"
    by (auto simp: v_def)
  have c: "conf1\<lparr>Commands := ?cs\<rparr> = conf\<lparr>Commands := ?cs, Version := v\<rparr>"
    by (simp add: conf1_def)
  have "NewSupfile yaml_Unmarshal ord data = case_v03 ord conf1"
    using assms(1) three by (simp add: NewSupfile_def)
  also have "\<dots> =
             (if ?some
              then [''Warning: command.run_once was deprecated by command.once in Supfile v''
                    @ Version conf @ [CHR 0x0A, CHR 0x0A]]
              else [],
              Inr (conf\<lparr>Commands := ?cs, Version := v\<rparr>))"
    using w by (simp only: r c) auto
  finally show ?thesis
    by (simp only: v_def)
qed

theorem run_once_migrated_witness:
  "range_orders (ranged [''build'', ''deploy''])
     (two_commands ''0.2'' zero_Command (zero_Command\<lparr>RunOnce := True\<rparr>))
   \<and> Version (two_commands ''0.2'' zero_Command (zero_Command\<lparr>RunOnce := True\<rparr>))
       \<in> {'''', ''0.1'', ''0.2'', ''0.3''}
   \<and> NewSupfile (decoded_as (two_commands ''0.2'' zero_Command (zero_Command\<lparr>RunOnce := True\<rparr>)))
        (ranged [''build'', ''deploy'']) ''version: 0.2'' =
        ([''Warning: command.run_once was deprecated by command.once in Supfile v0.2'' @ [CHR 0x0A, CHR 0x0A]],
         Inr (two_commands ''0.2'' zero_Command (zero_Command\<lparr>Once := True, RunOnce := True\<rparr>)))"
proof -
  let ?c = "zero_Command\<lparr>RunOnce := True\<rparr>"
  let ?conf = "two_commands ''0.2'' zero_Command ?c"
  have h1: "decoded_as ?conf ''version: 0.2'' = Inr ?conf"
    by (simp add: decoded_as_def)
  have h2: "range_orders (ranged [''build'', ''deploy'']) ?conf"
    by (auto simp: range_orders_def range_order_def ranged_def two_commands_def zero_Supfile_def)
  have h3: "Version ?conf \<in> {'''', ''0.1'', ''0.2'', ''0.3''}"
    by (simp add: two_commands_def)
  have h4: "Version ?conf \<in> {'''', ''0.1''} \<longrightarrow>
              (\<forall>name cmd. cmds (Commands ?conf) name = Some cmd \<longrightarrow> \<not> RunOnce cmd)"
    by (simp add: two_commands_def)
  have h5: "Version ?conf \<in> {'''', ''0.1'', ''0.2''} \<longrightarrow>
              (\<forall>name cmd. cmds (Commands ?conf) name = Some cmd \<longrightarrow>
                 \<not> Once cmd \<and> \<not> Local cmd \<and> Serial cmd = 0)
              \<and> (\<forall>name network. nets (Networks ?conf) name = Some network \<longrightarrow> Inventory network = '''')"
    by (auto simp: two_commands_def zero_Supfile_def zero_Command_def split: if_splits)
  have some: "\<exists>name cmd. cmds (Commands ?conf) name = Some cmd \<and> RunOnce cmd"
    by (rule exI [of _ "''deploy''"], rule exI [of _ ?c]) (simp add: two_commands_def)
  have after: "(\<lambda>name. map_option (\<lambda>cmd. if RunOnce cmd then cmd\<lparr>Once := True\<rparr> else cmd)
                  (cmds (Commands ?conf) name)) =
               [''build'' \<mapsto> zero_Command, ''deploy'' \<mapsto> zero_Command\<lparr>Once := True, RunOnce := True\<rparr>]"
    by (rule ext) (simp add: two_commands_def zero_Command_def)
  from run_once_migrated
         [where yaml_Unmarshal = "decoded_as ?conf" and data = "''version: 0.2''"
            and conf = ?conf and ord = "ranged [''build'', ''deploy'']", OF h1 h2 h3 h4 h5]
  have "NewSupfile (decoded_as ?conf) (ranged [''build'', ''deploy'']) ''version: 0.2'' =
          ([''Warning: command.run_once was deprecated by command.once in Supfile v''
            @ Version ?conf @ [CHR 0x0A, CHR 0x0A]],
           Inr (?conf\<lparr>Commands := (Commands ?conf)
                  \<lparr>cmds := [''build'' \<mapsto> zero_Command,
                            ''deploy'' \<mapsto> zero_Command\<lparr>Once := True, RunOnce := True\<rparr>]\<rparr>,
                  Version := (if Version ?conf = '''' then ''0.1'' else Version ?conf)\<rparr>))"
    by (simp only: some after if_True)
  with h2 h3 show ?thesis
    by (simp add: two_commands_def)
qed

text \<open>
  C2 as stated fails: a document of version 0.3 in which two commands have
  \<open>run_once\<close> set is accepted with a single warning on the standard error stream,
  not with two.
\<close>

theorem one_warning_per_command_counterexample:
  "RunOnce (zero_Command\<lparr>RunOnce := True\<rparr>)
   \<and> NewSupfile (decoded_as (two_commands ''0.3'' (zero_Command\<lparr>RunOnce := True\<rparr>)
                                  (zero_Command\<lparr>RunOnce := True\<rparr>)))
        (ranged [''build'', ''deploy'']) ''version: 0.3'' =
        ([''Warning: command.run_once was deprecated by command.once in Supfile v0.3'' @ [CHR 0x0A, CHR 0x0A]],
         Inr (two_commands ''0.3'' (zero_Command\<lparr>Once := True, RunOnce := True\<rparr>)
                                   (zero_Command\<lparr>Once := True, RunOnce := True\<rparr>)))
   \<and> length (fst (NewSupfile (decoded_as (two_commands ''0.3'' (zero_Command\<lparr>RunOnce := True\<rparr>)
                                               (zero_Command\<lparr>RunOnce := True\<rparr>)))
                     (ranged [''build'', ''deploy'']) ''version: 0.3'')) \<noteq> 2"
  by (simp add: NewSupfile_def decoded_as_def version_switch_def case_v03_def
        two_commands_def zero_Supfile_def zero_Command_def ranged_def)

lemma accepted_below_v04:
  assumes "range_orders ord conf"
    and "Version conf \<in> {'''', ''0.1'', ''0.2'', ''0.3''}"
    and "version_switch ord conf = (stderr, Inr conf')"
  shows "conf' =
           conf\<lparr>Commands := (Commands conf)
                  \<lparr>cmds := \<lambda>name. map_option (\<lambda>cmd. if RunOnce cmd then cmd\<lparr>Once := True\<rparr> else cmd)
                                    (cmds (Commands conf) name)\<rparr>,
                Version := (if Version conf = '''' then ''0.1'' else Version conf)\<rparr>"
    and "Version conf \<in> {'''', ''0.1''} \<Longrightarrow> cmds (Commands conf) name = Some cmd \<Longrightarrow> \<not> RunOnce cmd"
proof -
  define v where "v = (if Version conf = '''' then ''0.1'' else Version conf)"
  define conf1 where "conf1 = conf\<lparr>Version := v\<rparr>"
  have v1: "Version conf1 = v" and c1: "Commands conf1 = Commands conf"
    by (simp_all add: conf1_def)
  have same: "conf1 = conf" if "Version conf \<noteq> ''''"
    using that by (simp add: conf1_def v_def)
  have o1: "range_order (cmds_v01 ord) (cmds (Commands conf))"
    and o3: "range_order (cmds_v03 ord) (cmds (Commands conf1))"
    using assms(1) by (simp_all add: range_orders_def c1)
  have two: "case_v03 ord conf1 = (stderr, Inr conf')" if "case_v02 ord conf1 = (stderr, Inr conf')"
    using that by (auto simp: case_v02_def split: option.splits)
  have one: "case_v02 ord conf1 = (stderr, Inr conf')
             \<and> range_check (check_v01 v) (cmds (Commands conf)) (cmds_v01 ord) = None"
    if "case_v01 ord conf1 = (stderr, Inr conf')"
    using that by (auto simp: case_v01_def v1 c1 split: option.splits)
  consider "Version conf \<in> {'''', ''0.1''}" | "Version conf = ''0.2''" | "Version conf = ''0.3''"
    using assms(2) by auto
  then have three: "case_v03 ord conf1 = (stderr, Inr conf')"
  proof cases
    case 1
    with same have "version_switch ord conf = case_v01 ord conf1"
      by (auto simp: version_switch_def conf1_def v_def)
    with assms(3) one two show ?thesis by simp
  next
    case 2
    with same have "version_switch ord conf = case_v02 ord conf1"
      by (auto simp: version_switch_def)
    with assms(3) two show ?thesis by simp
  next
    case 3
    with same have "version_switch ord conf = case_v03 ord conf1"
      by (auto simp: version_switch_def)
    with assms(3) show ?thesis by simp
  qed
  with case_v03_result [OF o3]
  have "conf' = conf1\<lparr>Commands := (Commands conf1)
                  \<lparr>cmds := \<lambda>name. map_option (\<lambda>cmd. if RunOnce cmd then cmd\<lparr>Once := True\<rparr> else cmd)
                                    (cmds (Commands conf1) name)\<rparr>\<rparr>"
    by simp
  then show "conf' =
           conf\<lparr>Commands := (Commands conf)
                  \<lparr>cmds := \<lambda>name. map_option (\<lambda>cmd. if RunOnce cmd then cmd\<lparr>Once := True\<rparr> else cmd)
                                    (cmds (Commands conf) name)\<rparr>,
                Version := (if Version conf = '''' then ''0.1'' else Version conf)\<rparr>"
    by (simp add: c1 conf1_def v_def)
  show "\<not> RunOnce cmd" if "Version conf \<in> {'''', ''0.1''}" and c: "cmds (Commands conf) name = Some cmd"
  proof -
    from that(1) same have "version_switch ord conf = case_v01 ord conf1"
      by (auto simp: version_switch_def conf1_def v_def)
    with assms(3) one
    have "range_check (check_v01 v) (cmds (Commands conf)) (cmds_v01 ord) = None"
      by simp
    moreover from c o1 have "name \<in> set (cmds_v01 ord)"
      by (auto simp: range_order_def)
    ultimately have "check_v01 v cmd = None"
      using c by (auto simp: range_check_None)
    then show ?thesis
      by (auto simp: check_v01_def split: if_splits)
  qed
qed

text \<open>
  C1 as stated fails: a document of version 0.3 whose command \<open>deploy\<close> has
  \<open>run_once\<close> set is accepted, and in the result that command has both
  \<open>RunOnce\<close> and \<open>Once\<close> set.
\<close>

theorem once_and_run_once_counterexample:
  "snd (NewSupfile (decoded_as (one_command ''0.3'' (zero_Command\<lparr>RunOnce := True\<rparr>)))
          (ranged [''deploy'']) ''version: 0.3'') =
     Inr (one_command ''0.3'' (zero_Command\<lparr>Once := True, RunOnce := True\<rparr>))
   \<and> cmds (Commands (one_command ''0.3'' (zero_Command\<lparr>Once := True, RunOnce := True\<rparr>))) ''deploy'' =
       Some (zero_Command\<lparr>Once := True, RunOnce := True\<rparr>)
   \<and> RunOnce (zero_Command\<lparr>Once := True, RunOnce := True\<rparr>)
   \<and> Once (zero_Command\<lparr>Once := True, RunOnce := True\<rparr>)"
  by (simp add: NewSupfile_def decoded_as_def version_switch_def case_v03_def
        one_command_def zero_Supfile_def zero_Command_def ranged_def)

text \<open>
  C1, as amended. The result of an accepted document that declares version 0.3 or
  lower is the decoded document with \<open>Once\<close> set in every command that has
  \<open>RunOnce\<close> set and nothing else changed but the default version: \<open>RunOnce\<close> stays
  set, so such a command has both flags set afterwards, and no command has \<open>RunOnce\<close>
  set without \<open>Once\<close>. For the versions 0.1 and none, no command of an accepted
  document has \<open>RunOnce\<close> set. A document of version 0.4 or 0.5 is returned as
  decoded, both flags as declared.
\<close>

theorem run_once_implies_once:
  assumes "yaml_Unmarshal data = Inr conf"
    and "range_orders ord conf"
    and "NewSupfile yaml_Unmarshal ord data = (stderr, Inr conf')"
  shows "(Version conf \<in> {'''', ''0.1'', ''0.2'', ''0.3''} \<longrightarrow>
            conf' =
              conf\<lparr>Commands := (Commands conf)
                     \<lparr>cmds := \<lambda>name. map_option (\<lambda>cmd. if RunOnce cmd then cmd\<lparr>Once := True\<rparr> else cmd)
                                       (cmds (Commands conf) name)\<rparr>,
                   Version := (if Version conf = '''' then ''0.1'' else Version conf)\<rparr>
            \<and> (\<forall>name cmd. cmds (Commands conf) name = Some cmd \<and> RunOnce cmd \<longrightarrow>
                  cmds (Commands conf') name = Some (cmd\<lparr>Once := True\<rparr>)
                  \<and> RunOnce (cmd\<lparr>Once := True\<rparr>) \<and> Once (cmd\<lparr>Once := True\<rparr>))
            \<and> (\<forall>name cmd. cmds (Commands conf) name = Some cmd \<and> \<not> RunOnce cmd \<longrightarrow>
                  cmds (Commands conf') name = Some cmd)
            \<and> (\<forall>name cmd. cmds (Commands conf') name = Some cmd \<longrightarrow> RunOnce cmd \<longrightarrow> Once cmd))
         \<and> (Version conf \<in> {'''', ''0.1''} \<longrightarrow>
            (\<forall>name cmd. cmds (Commands conf') name = Some cmd \<longrightarrow> \<not> RunOnce cmd))
         \<and> (Version conf \<in> {''0.4'', ''0.5''} \<longrightarrow> conf' = conf)"
proof -
  from assms(1,3) have sw: "version_switch ord conf = (stderr, Inr conf')"
    by (simp add: NewSupfile_def)
  let ?migrated = "\<lambda>name. map_option (\<lambda>cmd. if RunOnce cmd then cmd\<lparr>Once := True\<rparr> else cmd)
                            (cmds (Commands conf) name)"
  have whole: "conf' = conf\<lparr>Commands := (Commands conf)\<lparr>cmds := ?migrated\<rparr>,
                            Version := (if Version conf = '''' then ''0.1'' else Version conf)\<rparr>"
    if "Version conf \<in> {'''', ''0.1'', ''0.2'', ''0.3''}"
    using accepted_below_v04(1) [OF assms(2) that sw] .
  have after: "cmds (Commands conf') = ?migrated"
    if "Version conf \<in> {'''', ''0.1'', ''0.2'', ''0.3''}"
    by (subst whole [OF that]) simp
  have set: "cmds (Commands conf') name = Some (cmd\<lparr>Once := True\<rparr>)
             \<and> RunOnce (cmd\<lparr>Once := True\<rparr>) \<and> Once (cmd\<lparr>Once := True\<rparr>)"
    if "Version conf \<in> {'''', ''0.1'', ''0.2'', ''0.3''}"
      and "cmds (Commands conf) name = Some cmd" and "RunOnce cmd"
    for name cmd
    using that(2,3) by (simp add: after [OF that(1)])
  have kept: "cmds (Commands conf') name = Some cmd"
    if "Version conf \<in> {'''', ''0.1'', ''0.2'', ''0.3''}"
      and "cmds (Commands conf) name = Some cmd" and "\<not> RunOnce cmd"
    for name cmd
    using that(2,3) by (simp add: after [OF that(1)])
  have both: "RunOnce cmd \<longrightarrow> Once cmd"
    if "Version conf \<in> {'''', ''0.1'', ''0.2'', ''0.3''}" and "cmds (Commands conf') name = Some cmd"
    for name cmd
  proof -
    from that(2) after [OF that(1)]
    obtain cmd0 where "cmd = (if RunOnce cmd0 then cmd0\<lparr>Once := True\<rparr> else cmd0)"
      by auto
    then show ?thesis
      by (cases "RunOnce cmd0") simp_all
  qed
  have none: "\<not> RunOnce cmd"
    if v: "Version conf \<in> {'''', ''0.1''}" and c: "cmds (Commands conf') name = Some cmd"
    for name cmd
  proof -
    from v have v': "Version conf \<in> {'''', ''0.1'', ''0.2'', ''0.3''}"
      by auto
    from c after [OF v']
    obtain cmd0 where c0: "cmds (Commands conf) name = Some cmd0"
      and "cmd = (if RunOnce cmd0 then cmd0\<lparr>Once := True\<rparr> else cmd0)"
      by auto
    moreover from accepted_below_v04(2) [OF assms(2) v' sw v c0] have "\<not> RunOnce cmd0" .
    ultimately show ?thesis by simp
  qed
  have asis: "conf' = conf" if "Version conf \<in> {''0.4'', ''0.5''}"
    using that sw by (auto simp: version_switch_def)
  from whole set kept both none asis show ?thesis
    by blast
qed

theorem run_once_implies_once_witness:
  "range_orders (ranged [''deploy'']) (one_command ''0.2'' (zero_Command\<lparr>RunOnce := True\<rparr>))
   \<and> NewSupfile (decoded_as (one_command ''0.2'' (zero_Command\<lparr>RunOnce := True\<rparr>)))
        (ranged [''deploy'']) ''version: 0.2'' =
        ([''Warning: command.run_once was deprecated by command.once in Supfile v0.2'' @ [CHR 0x0A, CHR 0x0A]],
         Inr (one_command ''0.2'' (zero_Command\<lparr>Once := True, RunOnce := True\<rparr>)))
   \<and> cmds (Commands (one_command ''0.2'' (zero_Command\<lparr>RunOnce := True\<rparr>))) ''deploy'' =
       Some (zero_Command\<lparr>RunOnce := True\<rparr>)
   \<and> RunOnce (zero_Command\<lparr>RunOnce := True\<rparr>)
   \<and> cmds (Commands (one_command ''0.2'' (zero_Command\<lparr>Once := True, RunOnce := True\<rparr>))) ''deploy'' =
       Some (zero_Command\<lparr>RunOnce := True, Once := True\<rparr>)
   \<and> RunOnce (zero_Command\<lparr>RunOnce := True, Once := True\<rparr>)
   \<and> Once (zero_Command\<lparr>RunOnce := True, Once := True\<rparr>)
   \<and> NewSupfile (decoded_as (one_command ''0.1'' zero_Command)) (ranged [''deploy'']) ''version: 0.1'' =
        ([], Inr (one_command ''0.1'' zero_Command))
   \<and> \<not> RunOnce zero_Command
   \<and> NewSupfile (decoded_as (one_command ''0.4'' (zero_Command\<lparr>Once := True, RunOnce := True\<rparr>)))
        (ranged [''deploy'']) ''version: 0.4'' =
        ([], Inr (one_command ''0.4'' (zero_Command\<lparr>Once := True, RunOnce := True\<rparr>)))"
proof -
  let ?c = "zero_Command\<lparr>RunOnce := True\<rparr>"
  let ?conf = "one_command ''0.2'' ?c"
  let ?conf' = "one_command ''0.2'' (zero_Command\<lparr>Once := True, RunOnce := True\<rparr>)"
  let ?w = "''Warning: command.run_once was deprecated by command.once in Supfile v0.2'' @ [CHR 0x0A, CHR 0x0A]"
  have h1: "decoded_as ?conf ''version: 0.2'' = Inr ?conf"
    by (simp add: decoded_as_def)
  have h2: "range_orders (ranged [''deploy'']) ?conf"
    by (simp add: range_orders_def range_order_def ranged_def one_command_def zero_Supfile_def)
  have h3: "NewSupfile (decoded_as ?conf) (ranged [''deploy'']) ''version: 0.2'' = ([?w], Inr ?conf')"
    by (simp add: NewSupfile_def decoded_as_def version_switch_def case_v02_def case_v03_def
          check_v02_def one_command_def zero_Supfile_def zero_Command_def ranged_def)
  have v: "Version ?conf \<in> {'''', ''0.1'', ''0.2'', ''0.3''}"
    by (simp add: one_command_def)
  have c: "cmds (Commands ?conf) ''deploy'' = Some ?c"
    by (simp add: one_command_def)
  have r: "RunOnce ?c"
    by simp
  from run_once_implies_once
         [where yaml_Unmarshal = "decoded_as ?conf" and data = "''version: 0.2''" and conf = ?conf
            and ord = "ranged [''deploy'']" and stderr = "[?w]" and conf' = ?conf', OF h1 h2 h3]
       v c r
  have o: "cmds (Commands ?conf') ''deploy'' = Some (?c\<lparr>Once := True\<rparr>)
           \<and> RunOnce (?c\<lparr>Once := True\<rparr>) \<and> Once (?c\<lparr>Once := True\<rparr>)"
    by blast
  let ?one = "one_command ''0.1'' zero_Command"
  have g1: "decoded_as ?one ''version: 0.1'' = Inr ?one"
    by (simp add: decoded_as_def)
  have g2: "range_orders (ranged [''deploy'']) ?one"
    by (simp add: range_orders_def range_order_def ranged_def one_command_def zero_Supfile_def)
  have g3: "NewSupfile (decoded_as ?one) (ranged [''deploy'']) ''version: 0.1'' = ([], Inr ?one)"
    by (simp add: NewSupfile_def decoded_as_def version_switch_def case_v01_def case_v02_def
          case_v03_def check_v01_def check_v02_def one_command_def zero_Supfile_def
          zero_Command_def ranged_def)
  have gv: "Version ?one \<in> {'''', ''0.1''}"
    by (simp add: one_command_def)
  have gc: "cmds (Commands ?one) ''deploy'' = Some zero_Command"
    by (simp add: one_command_def)
  from run_once_implies_once
         [where yaml_Unmarshal = "decoded_as ?one" and data = "''version: 0.1''" and conf = ?one
            and ord = "ranged [''deploy'']" and stderr = "[]" and conf' = ?one, OF g1 g2 g3]
       gv gc
  have n: "\<not> RunOnce zero_Command"
    by blast
  let ?four = "one_command ''0.4'' (zero_Command\<lparr>Once := True, RunOnce := True\<rparr>)"
  have f3: "NewSupfile (decoded_as ?four) (ranged [''deploy'']) ''version: 0.4'' = ([], Inr ?four)"
    by (simp add: NewSupfile_def decoded_as_def version_switch_def one_command_def)
  from h2 h3 c r o g3 n f3 show ?thesis
    by blast
qed

section \<open>Properties of ResolveValues\<close>

lemma ResolveValues_loop_done:
  "length e \<le> i \<Longrightarrow> ResolveValues_loop os i exports trace e = (trace, e, None)"
  by (subst ResolveValues_loop.simps) simp

lemma ResolveValues_loop_step:
  assumes "i < length e"
    and "Getwd os i = Inr cwd"
    and "bash os i cwd (exports @ EnvVar_AsExport (e ! i) @ ''echo -n '' @ Value (e ! i) @ '';'') = Inr out"
  shows "ResolveValues_loop os i exports trace e =
           ResolveValues_loop os (Suc i) (exports @ EnvVar_AsExport (e ! i))
             (trace @ [exports @ EnvVar_AsExport (e ! i) @ ''echo -n '' @ Value (e ! i) @ '';''])
             (e[i := (e ! i)\<lparr>Value := out\<rparr>])"
  using assms by (subst ResolveValues_loop.simps) (simp add: Let_def)

lemma ResolveValues_loop_bash_fails:
  assumes "i < length e"
    and "Getwd os i = Inr cwd"
    and "bash os i cwd (exports @ EnvVar_AsExport (e ! i) @ ''echo -n '' @ Value (e ! i) @ '';'') = Inl err"
  shows "ResolveValues_loop os i exports trace e =
           (trace @ [exports @ EnvVar_AsExport (e ! i) @ ''echo -n '' @ Value (e ! i) @ '';''], e,
            Some (Wrapf err (''resolving env var '' @ Key (e ! i) @ '' failed'')))"
  using assms by (subst ResolveValues_loop.simps) (simp add: Let_def)

lemma ResolveValues_loop_Getwd_fails:
  assumes "i < length e" and "Getwd os i = Inl err"
  shows "ResolveValues_loop os i exports trace e = (trace, e, Some err)"
  using assms by (subst ResolveValues_loop.simps) (simp add: Let_def)

lemma spec_script_unfold:
  "n < length e \<Longrightarrow>
   spec_script e n =
     concat (map EnvVar_AsExport (take n e)) @ EnvVar_AsExport (e ! n) @ ''echo -n '' @ Value (e ! n) @ '';''"
  by (simp add: spec_script_def take_Suc_conv_app_nth)

text \<open>
  As long as the working directory is found and bash succeeds, the loop goes on: after
  \<open>n\<close> such iterations the first \<open>n\<close> entries hold the captured outputs, the others
  are untouched, and the scripts run were those of the spec.
\<close>

lemma ResolveValues_loop_prefix:
  assumes "n \<le> length e"
    and "\<forall>j<n. Getwd os j = Inr (cwd j) \<and> bash os j (cwd j) (spec_script e j) = Inr (out j)"
  shows "ResolveValues_loop os 0 '''' [] e =
           ResolveValues_loop os n (concat (map EnvVar_AsExport (take n e)))
             (map (spec_script e) [0..<n])
             (map (\<lambda>j. (e ! j)\<lparr>Value := out j\<rparr>) [0..<n] @ drop n e)"
  using assms
proof (induction n)
  case 0
  then show ?case by simp
next
  case (Suc n)
  let ?done = "map (\<lambda>j. (e ! j)\<lparr>Value := out j\<rparr>) [0..<n]"
  let ?e = "?done @ drop n e"
  from Suc.prems have n: "n < length e" by simp
  have len: "length ?done = n" by simp
  have at: "?e ! n = e ! n"
    using n by (simp add: nth_append)
  have upd: "?e[n := (e ! n)\<lparr>Value := out n\<rparr>] =
               map (\<lambda>j. (e ! j)\<lparr>Value := out j\<rparr>) [0..<Suc n] @ drop (Suc n) e"
    using n by (simp add: list_update_append Cons_nth_drop_Suc [symmetric])
  from Suc.prems have ok: "Getwd os n = Inr (cwd n)"
    "bash os n (cwd n) (spec_script e n) = Inr (out n)"
    by simp_all
  have "ResolveValues_loop os 0 '''' [] e =
          ResolveValues_loop os n (concat (map EnvVar_AsExport (take n e)))
            (map (spec_script e) [0..<n]) ?e"
    using Suc by simp
  also have "\<dots> =
          ResolveValues_loop os (Suc n) (concat (map EnvVar_AsExport (take n e)) @ EnvVar_AsExport (?e ! n))
            (map (spec_script e) [0..<n]
               @ [concat (map EnvVar_AsExport (take n e)) @ EnvVar_AsExport (?e ! n)
                    @ ''echo -n '' @ Value (?e ! n) @ '';''])
            (?e[n := (?e ! n)\<lparr>Value := out n\<rparr>])"
  proof (rule ResolveValues_loop_step [where cwd = "cwd n"])
    show "n < length ?e" using n by simp
    show "Getwd os n = Inr (cwd n)" by (rule ok)
    show "bash os n (cwd n)
            (concat (map EnvVar_AsExport (take n e)) @ EnvVar_AsExport (?e ! n)
               @ ''echo -n '' @ Value (?e ! n) @ '';'') = Inr (out n)"
      using ok(2) n by (simp only: at spec_script_unfold)
  qed
  also have "\<dots> =
          ResolveValues_loop os (Suc n) (concat (map EnvVar_AsExport (take (Suc n) e)))
            (map (spec_script e) [0..<Suc n])
            (map (\<lambda>j. (e ! j)\<lparr>Value := out j\<rparr>) [0..<Suc n] @ drop (Suc n) e)"
    using n by (simp only: at upd) (simp add: take_Suc_conv_app_nth spec_script_unfold)
  finally show ?case .
qed

lemma ResolveValues_all_resolved:
  assumes "\<forall>j<length e. Getwd os j = Inr (cwd j) \<and> bash os j (cwd j) (spec_script e j) = Inr (out j)"
  shows "ResolveValues os e =
           (map (spec_script e) [0..<length e],
            map (\<lambda>j. (e ! j)\<lparr>Value := out j\<rparr>) [0..<length e], None)"
proof (cases "e = []")
  case True
  then show ?thesis by (simp add: ResolveValues_def)
next
  case False
  then have "ResolveValues os e = ResolveValues_loop os 0 '''' [] e"
    by (simp add: ResolveValues_def)
  also from assms have "\<dots> =
      ResolveValues_loop os (length e) (concat (map EnvVar_AsExport (take (length e) e)))
        (map (spec_script e) [0..<length e])
        (map (\<lambda>j. (e ! j)\<lparr>Value := out j\<rparr>) [0..<length e] @ drop (length e) e)"
    by (rule ResolveValues_loop_prefix [OF le_refl])
  also have "\<dots> = (map (spec_script e) [0..<length e],
                    map (\<lambda>j. (e ! j)\<lparr>Value := out j\<rparr>) [0..<length e], None)"
    by (subst ResolveValues_loop_done) simp_all
  finally show ?thesis .
qed

lemma ResolveValues_stops_at:
  assumes "n < length e"
    and "\<forall>j<n. Getwd os j = Inr (cwd j) \<and> bash os j (cwd j) (spec_script e j) = Inr (out j)"
  shows "Getwd os n = Inl err \<Longrightarrow>
         ResolveValues os e =
           (map (spec_script e) [0..<n],
            map (\<lambda>j. (e ! j)\<lparr>Value := out j\<rparr>) [0..<n] @ drop n e, Some err)"
    and "Getwd os n = Inr d \<Longrightarrow> bash os n d (spec_script e n) = Inl err \<Longrightarrow>
         ResolveValues os e =
           (map (spec_script e) [0..<Suc n],
            map (\<lambda>j. (e ! j)\<lparr>Value := out j\<rparr>) [0..<n] @ drop n e,
            Some (Wrapf err (''resolving env var '' @ Key (e ! n) @ '' failed'')))"
proof -
  let ?e = "map (\<lambda>j. (e ! j)\<lparr>Value := out j\<rparr>) [0..<n] @ drop n e"
  let ?ex = "concat (map EnvVar_AsExport (take n e))"
  let ?tr = "map (spec_script e) [0..<n]"
  from assms(1) have "e \<noteq> []" by auto
  then have "ResolveValues os e = ResolveValues_loop os 0 '''' [] e"
    by (simp add: ResolveValues_def)
  also have "\<dots> = ResolveValues_loop os n ?ex ?tr ?e"
    by (rule ResolveValues_loop_prefix [OF less_imp_le [OF assms(1)] assms(2)])
  finally have start: "ResolveValues os e = ResolveValues_loop os n ?ex ?tr ?e" .
  have n: "n < length ?e" using assms(1) by simp
  have at: "?e ! n = e ! n"
    using assms(1) by (simp add: nth_append)
  show "ResolveValues os e = (?tr, ?e, Some err)" if "Getwd os n = Inl err"
    using start ResolveValues_loop_Getwd_fails [OF n that] by simp
  show "ResolveValues os e =
          (map (spec_script e) [0..<Suc n], ?e,
           Some (Wrapf err (''resolving env var '' @ Key (e ! n) @ '' failed'')))"
    if g: "Getwd os n = Inr d" and b: "bash os n d (spec_script e n) = Inl err"
  proof -
    from b assms(1)
    have "bash os n d (?ex @ EnvVar_AsExport (?e ! n) @ ''echo -n '' @ Value (?e ! n) @ '';'') = Inl err"
      by (simp only: at spec_script_unfold)
    from ResolveValues_loop_bash_fails [OF n g this, of ?tr] start assms(1) show ?thesis
      by (simp only: at) (simp add: spec_script_unfold)
  qed
qed

text \<open>Every call ends in one of three ways.\<close>

lemma ResolveValues_cases:
  obtains (resolved) cwd out where
      "\<forall>j<length e. Getwd os j = Inr (cwd j) \<and> bash os j (cwd j) (spec_script e j) = Inr (out j)"
      "ResolveValues os e =
         (map (spec_script e) [0..<length e],
          map (\<lambda>j. (e ! j)\<lparr>Value := out j\<rparr>) [0..<length e], None)"
  | (no_dir) n cwd out err where "n < length e"
      "\<forall>j<n. Getwd os j = Inr (cwd j) \<and> bash os j (cwd j) (spec_script e j) = Inr (out j)"
      "Getwd os n = Inl err"
      "ResolveValues os e =
         (map (spec_script e) [0..<n],
          map (\<lambda>j. (e ! j)\<lparr>Value := out j\<rparr>) [0..<n] @ drop n e, Some err)"
  | (failed) n cwd out d err where "n < length e"
      "\<forall>j<n. Getwd os j = Inr (cwd j) \<and> bash os j (cwd j) (spec_script e j) = Inr (out j)"
      "Getwd os n = Inr d" "bash os n d (spec_script e n) = Inl err"
      "ResolveValues os e =
         (map (spec_script e) [0..<Suc n],
          map (\<lambda>j. (e ! j)\<lparr>Value := out j\<rparr>) [0..<n] @ drop n e,
          Some (Wrapf err (''resolving env var '' @ Key (e ! n) @ '' failed'')))"
proof -
  define cwd where "cwd j = projr (Getwd os j)" for j
  define out where "out j = projr (bash os j (cwd j) (spec_script e j))" for j
  define good where "good j \<longleftrightarrow> \<not> isl (Getwd os j) \<and> \<not> isl (bash os j (cwd j) (spec_script e j))" for j
  have good: "Getwd os j = Inr (cwd j) \<and> bash os j (cwd j) (spec_script e j) = Inr (out j)"
    if "good j" for j
    using that by (simp add: good_def cwd_def out_def)
  show thesis
  proof (cases "\<forall>j<length e. good j")
    case True
    with good have all: "\<forall>j<length e. Getwd os j = Inr (cwd j)
                           \<and> bash os j (cwd j) (spec_script e j) = Inr (out j)"
      by blast
    from all ResolveValues_all_resolved [OF all] show thesis
      by (rule resolved)
  next
    case False
    define n where "n = (LEAST j. \<not> good j)"
    from False obtain j where "j < length e" and "\<not> good j"
      by blast
    from \<open>\<not> good j\<close> have bad: "\<not> good n"
      unfolding n_def by (rule LeastI)
    from \<open>\<not> good j\<close> have "n \<le> j"
      unfolding n_def by (rule Least_le)
    with \<open>j < length e\<close> have n: "n < length e"
      by simp
    have "good j" if "j < n" for j
      using that not_less_Least [of j "\<lambda>j. \<not> good j"] by (auto simp: n_def)
    with good have before: "\<forall>j<n. Getwd os j = Inr (cwd j)
                              \<and> bash os j (cwd j) (spec_script e j) = Inr (out j)"
      by blast
    show thesis
    proof (cases "Getwd os n")
      case (Inl err)
      from n before Inl ResolveValues_stops_at(1) [OF n before Inl] show thesis
        by (rule no_dir)
    next
      case (Inr d)
      with bad obtain err where b: "bash os n d (spec_script e n) = Inl err"
        by (cases "bash os n d (spec_script e n)") (auto simp: good_def cwd_def)
      from n before Inr b ResolveValues_stops_at(2) [OF n before Inr b] show thesis
        by (rule failed)
    qed
  qed
qed

text \<open>
  C3. Whatever the operating system answers, the script run for entry \<open>i\<close> is the
  export statements of the entries \<open>0..i\<close> with the values they had before the call,
  followed by \<open>echo -n\<close> of entry \<open>i\<close>'s value before the call; an entry whose
  script succeeded holds the captured output afterwards, under its old key; and a call
  that returns no error has run the script of every entry. If bash answers the two
  scripts of the chain \<open>[FOO=bar, BAZ=$FOO-baz]\<close> as bash does, with \<open>bar\<close> and
  \<open>bar-baz\<close>, the chain resolves to \<open>FOO = bar\<close> and \<open>BAZ = bar-baz\<close>.
\<close>

theorem resolve_values_scripts:
  "(ResolveValues os e = (trace, e', err) \<longrightarrow>
      length trace \<le> length e \<and> length e' = length e
      \<and> (\<forall>i<length trace.
            trace ! i =
              concat (map EnvVar_AsExport (take (Suc i) e)) @ ''echo -n '' @ Value (e ! i) @ '';'')
      \<and> (\<forall>i<length trace. \<forall>dir out.
            Getwd os i = Inr dir \<and> bash os i dir (trace ! i) = Inr out \<longrightarrow>
            e' ! i = (e ! i)\<lparr>Value := out\<rparr>)
      \<and> (err = None \<longrightarrow> length trace = length e))
   \<and> (Getwd os 0 = Inr dirA \<and> bash os 0 dirA FOO_script = Inr ''bar''
      \<and> Getwd os 1 = Inr dirB \<and> bash os 1 dirB BAZ_script = Inr ''bar-baz'' \<longrightarrow>
      ResolveValues os FOO_BAZ =
        ([FOO_script, BAZ_script],
         [\<lparr>Key = ''FOO'', Value = ''bar''\<rparr>, \<lparr>Key = ''BAZ'', Value = ''bar-baz''\<rparr>], None))"
proof -
  have part1: "length trace \<le> length e \<and> length e' = length e
      \<and> (\<forall>i<length trace. trace ! i = spec_script e i)
      \<and> (\<forall>i<length trace. \<forall>dir out.
            Getwd os i = Inr dir \<and> bash os i dir (trace ! i) = Inr out \<longrightarrow>
            e' ! i = (e ! i)\<lparr>Value := out\<rparr>)
      \<and> (err = None \<longrightarrow> length trace = length e)"
    if run: "ResolveValues os e = (trace, e', err)"
  proof (cases os e rule: ResolveValues_cases)
    case (resolved cwd out)
    with run have "trace = map (spec_script e) [0..<length e]"
      and "e' = map (\<lambda>j. (e ! j)\<lparr>Value := out j\<rparr>) [0..<length e]" and "err = None"
      by simp_all
    with resolved(1) show ?thesis
      by auto
  next
    case (no_dir n cwd out err0)
    with run have "trace = map (spec_script e) [0..<n]"
      and "e' = map (\<lambda>j. (e ! j)\<lparr>Value := out j\<rparr>) [0..<n] @ drop n e" and "err = Some err0"
      by simp_all
    with no_dir(1,2) show ?thesis
      by (auto simp: nth_append)
  next
    case (failed n cwd out d err0)
    from run [unfolded failed(5)]
    have t: "trace = map (spec_script e) [0..<Suc n]"
      and e': "e' = map (\<lambda>j. (e ! j)\<lparr>Value := out j\<rparr>) [0..<n] @ drop n e"
      and "err \<noteq> None"
      by (simp_all only: prod.inject) auto
    have "e' ! i = (e ! i)\<lparr>Value := out'\<rparr>"
      if "i < Suc n" and "Getwd os i = Inr dir" and "bash os i dir (spec_script e i) = Inr out'"
      for i dir out'
    proof (cases "i = n")
      case True
      with that failed(3,4) show ?thesis by simp
    next
      case False
      with that(1) have "i < n" by simp
      with that failed(2) e' show ?thesis
        by (auto simp: nth_append)
    qed
    moreover have "\<forall>i<length trace. trace ! i = spec_script e i"
      unfolding t by (simp del: upt_Suc add: nth_map [of _ "[0..<Suc n]"])
    ultimately show ?thesis
      using failed(1) \<open>err \<noteq> None\<close> t e' by (auto simp del: upt_Suc)
  qed
  have part2: "ResolveValues os FOO_BAZ =
        ([FOO_script, BAZ_script],
         [\<lparr>Key = ''FOO'', Value = ''bar''\<rparr>, \<lparr>Key = ''BAZ'', Value = ''bar-baz''\<rparr>], None)"
    if a: "Getwd os 0 = Inr dirA \<and> bash os 0 dirA FOO_script = Inr ''bar''
      \<and> Getwd os 1 = Inr dirB \<and> bash os 1 dirB BAZ_script = Inr ''bar-baz''"
  proof -
  define cwd where "cwd j = (if j = 0 then dirA else dirB)" for j :: nat
  define out where "out j = (if j = 0 then ''bar'' else ''bar-baz'')" for j :: nat
  have s0: "spec_script FOO_BAZ 0 = FOO_script" and s1: "spec_script FOO_BAZ 1 = BAZ_script"
    by (simp_all add: spec_script_def FOO_BAZ_def FOO_script_def BAZ_script_def EnvVar_AsExport_def)
  have all: "\<forall>j<length FOO_BAZ. Getwd os j = Inr (cwd j)
          \<and> bash os j (cwd j) (spec_script FOO_BAZ j) = Inr (out j)"
  proof (intro allI impI)
    fix j assume "j < length FOO_BAZ"
    then have "j = 0 \<or> j = 1" by (auto simp: FOO_BAZ_def)
    with a s0 s1 show "Getwd os j = Inr (cwd j)
          \<and> bash os j (cwd j) (spec_script FOO_BAZ j) = Inr (out j)"
      by (auto simp: cwd_def out_def)
  qed
  have s1': "spec_script FOO_BAZ (Suc 0) = BAZ_script"
    using s1 by simp
  have "map (spec_script FOO_BAZ) [0..<length FOO_BAZ] = [FOO_script, BAZ_script]"
    by (simp add: FOO_BAZ_def upt_rec [of 0] upt_rec [of "Suc 0"])
       (simp add: s0 s1' FOO_BAZ_def [symmetric])
  moreover have "map (\<lambda>j. (FOO_BAZ ! j)\<lparr>Value := out j\<rparr>) [0..<length FOO_BAZ] =
      [\<lparr>Key = ''FOO'', Value = ''bar''\<rparr>, \<lparr>Key = ''BAZ'', Value = ''bar-baz''\<rparr>]"
    by (simp add: FOO_BAZ_def out_def upt_rec [of 0] upt_rec [of "Suc 0"])
  ultimately show ?thesis
    using ResolveValues_all_resolved [OF all] by simp
  qed
  from part1 [unfolded spec_script_def] part2 show ?thesis
    by blast
qed

theorem resolve_values_scripts_witness:
  "ResolveValues (scripted_os bash_answers) FOO_BAZ =
     ([FOO_script, BAZ_script],
      [\<lparr>Key = ''FOO'', Value = ''bar''\<rparr>, \<lparr>Key = ''BAZ'', Value = ''bar-baz''\<rparr>], None)
   \<and> [FOO_script, BAZ_script] ! 1 =
       concat (map EnvVar_AsExport (take (Suc 1) FOO_BAZ)) @ ''echo -n '' @ Value (FOO_BAZ ! 1) @ '';''
   \<and> Getwd (scripted_os bash_answers) 1 = Inr ''/''
   \<and> bash (scripted_os bash_answers) 1 ''/'' ([FOO_script, BAZ_script] ! 1) = Inr ''bar-baz''
   \<and> [\<lparr>Key = ''FOO'', Value = ''bar''\<rparr>, \<lparr>Key = ''BAZ'', Value = ''bar-baz''\<rparr>] ! 1 =
       (FOO_BAZ ! 1)\<lparr>Value := ''bar-baz''\<rparr>"
proof -
  let ?os = "scripted_os bash_answers"
  let ?e' = "[\<lparr>Key = ''FOO'', Value = ''bar''\<rparr>, \<lparr>Key = ''BAZ'', Value = ''bar-baz''\<rparr>]"
  have ne: "FOO_script \<noteq> BAZ_script"
    by (simp add: FOO_script_def BAZ_script_def)
  have h: "Getwd ?os 0 = Inr ''/'' \<and> bash ?os 0 ''/'' FOO_script = Inr ''bar''
           \<and> Getwd ?os 1 = Inr ''/'' \<and> bash ?os 1 ''/'' BAZ_script = Inr ''bar-baz''"
    using ne by (simp add: scripted_os_def root_dir_def scripted_bash_def bash_answers_def)
  note inst = resolve_values_scripts
               [where os = ?os and e = FOO_BAZ and trace = "[FOO_script, BAZ_script]"
                  and e' = ?e' and err = None and dirA = "''/''" and dirB = "''/''"]
  from inst h have run: "ResolveValues ?os FOO_BAZ = ([FOO_script, BAZ_script], ?e', None)"
    by blast
  with inst have
    a: "\<forall>i<length [FOO_script, BAZ_script].
        [FOO_script, BAZ_script] ! i =
          concat (map EnvVar_AsExport (take (Suc i) FOO_BAZ)) @ ''echo -n '' @ Value (FOO_BAZ ! i) @ '';''"
    and b: "\<forall>i<length [FOO_script, BAZ_script]. \<forall>dir out.
            Getwd ?os i = Inr dir \<and> bash ?os i dir ([FOO_script, BAZ_script] ! i) = Inr out \<longrightarrow>
            ?e' ! i = (FOO_BAZ ! i)\<lparr>Value := out\<rparr>"
    by blast+
  have l: "1 < length [FOO_script, BAZ_script]"
    by simp
  from h have h': "bash ?os 1 ''/'' ([FOO_script, BAZ_script] ! 1) = Inr ''bar-baz''"
    by simp
  from a l have "[FOO_script, BAZ_script] ! 1 =
          concat (map EnvVar_AsExport (take (Suc 1) FOO_BAZ)) @ ''echo -n '' @ Value (FOO_BAZ ! 1) @ '';''"
    by blast
  moreover from b l h h' have "?e' ! 1 = (FOO_BAZ ! 1)\<lparr>Value := ''bar-baz''\<rparr>"
    by blast
  ultimately show ?thesis
    using run h h' by blast
qed

text \<open>
  C9. If the working directory is found and bash succeeds for the entries before
  \<open>i\<close>, and bash fails for entry \<open>i\<close>, the call has run one script for each of the
  entries \<open>0..i\<close> and no more, and returns the subprocess's error wrapped in a message
  naming entry \<open>i\<close>'s key; it leaves the entries before \<open>i\<close> holding the captured
  outputs and the entries from \<open>i\<close> on as they were.
\<close>

theorem resolve_values_failure:
  assumes "i < length e"
    and "\<forall>j<i. Getwd os j = Inr (cwd j) \<and> bash os j (cwd j) (spec_script e j) = Inr (out j)"
    and "Getwd os i = Inr dir"
    and "bash os i dir (spec_script e i) = Inl cause"
  shows "ResolveValues os e =
           (map (spec_script e) [0..<Suc i],
            map (\<lambda>j. (e ! j)\<lparr>Value := out j\<rparr>) [0..<i] @ drop i e,
            Some (Wrapf cause (''resolving env var '' @ Key (e ! i) @ '' failed'')))"
  using assms by (rule ResolveValues_stops_at(2))

theorem resolve_values_failure_witness:
  "Getwd (scripted_os bash_answers) 0 = Inr ''/''
   \<and> bash (scripted_os bash_answers) 0 ''/'' (spec_script FOO_BAD 0) = Inr ''bar''
   \<and> Getwd (scripted_os bash_answers) 1 = Inr ''/''
   \<and> bash (scripted_os bash_answers) 1 ''/'' (spec_script FOO_BAD 1) = Inl (External ''exit status 1'')
   \<and> ResolveValues (scripted_os bash_answers) FOO_BAD =
       ([FOO_script, BAD_script],
        [\<lparr>Key = ''FOO'', Value = ''bar''\<rparr>, \<lparr>Key = ''BAD'', Value = ''x; exit 1''\<rparr>],
        Some (Wrapf (External ''exit status 1'') ''resolving env var BAD failed''))"
proof -
  let ?os = "scripted_os bash_answers"
  have s0: "spec_script FOO_BAD 0 = FOO_script" and s1: "spec_script FOO_BAD 1 = BAD_script"
    by (simp_all add: spec_script_def FOO_BAD_def FOO_script_def BAD_script_def EnvVar_AsExport_def)
  have ne: "FOO_script \<noteq> BAD_script" "BAZ_script \<noteq> BAD_script"
    by (simp_all add: FOO_script_def BAZ_script_def BAD_script_def)
  have h0: "Getwd ?os 0 = Inr ''/''" and h1: "bash ?os 0 ''/'' (spec_script FOO_BAD 0) = Inr ''bar''"
    and h2: "Getwd ?os 1 = Inr ''/''"
    and h3: "bash ?os 1 ''/'' (spec_script FOO_BAD 1) = Inl (External ''exit status 1'')"
    using ne by (simp_all only: s0 s1)
       (simp_all add: scripted_os_def root_dir_def scripted_bash_def bash_answers_def)
  have before: "\<forall>j<1. Getwd ?os j = Inr ''/'' \<and> bash ?os j ''/'' (spec_script FOO_BAD j) = Inr ''bar''"
    using h0 h1 by simp
  have len: "1 < length FOO_BAD"
    by (simp add: FOO_BAD_def)
  from resolve_values_failure
         [where os = ?os and e = FOO_BAD and i = 1 and cwd = "\<lambda>j. ''/''" and out = "\<lambda>j. ''bar''",
          OF len before h2 h3]
  have run: "ResolveValues ?os FOO_BAD =
       (map (spec_script FOO_BAD) [0..<Suc 1],
        map (\<lambda>j. (FOO_BAD ! j)\<lparr>Value := ''bar''\<rparr>) [0..<1] @ drop 1 FOO_BAD,
        Some (Wrapf (External ''exit status 1'') (''resolving env var '' @ Key (FOO_BAD ! 1) @ '' failed'')))" .
  have s1': "spec_script FOO_BAD (Suc 0) = BAD_script"
    using s1 by simp
  have "map (spec_script FOO_BAD) [0..<Suc 1] = [FOO_script, BAD_script]"
    by (simp add: upt_rec [of 0] upt_rec [of "Suc 0"] s0 s1')
  moreover have "map (\<lambda>j. (FOO_BAD ! j)\<lparr>Value := ''bar''\<rparr>) [0..<1] @ drop 1 FOO_BAD =
      [\<lparr>Key = ''FOO'', Value = ''bar''\<rparr>, \<lparr>Key = ''BAD'', Value = ''x; exit 1''\<rparr>]"
    by (simp add: FOO_BAD_def)
  moreover have "''resolving env var '' @ Key (FOO_BAD ! 1) @ '' failed'' = ''resolving env var BAD failed''"
    by (simp add: FOO_BAD_def)
  ultimately have "ResolveValues ?os FOO_BAD =
       ([FOO_script, BAD_script],
        [\<lparr>Key = ''FOO'', Value = ''bar''\<rparr>, \<lparr>Key = ''BAD'', Value = ''x; exit 1''\<rparr>],
        Some (Wrapf (External ''exit status 1'') ''resolving env var BAD failed''))"
    using run by simp
  with h0 h1 h2 h3 show ?thesis
    by simp
qed

section \<open>Properties of the UnmarshalYAML methods\<close>

lemma key_strings_Inr:
  "key_strings items = Inr names \<Longrightarrow> map IString names = map MapItem.Key items"
  by (induction items arbitrary: names) (auto split: iface.splits sum.splits)

lemma first_declared_distinct: "distinct xs \<Longrightarrow> first_declared xs = xs"
proof (induction xs)
  case Nil
  then show ?case by simp
next
  case (Cons x xs)
  then have "filter (\<lambda>y. y \<noteq> x) xs = xs"
    by (auto intro: filter_True)
  with Cons show ?case by simp
qed

lemma set_first_declared: "set (first_declared xs) = set xs"
  by (induction xs rule: first_declared.induct) auto

lemma distinct_first_declared: "distinct (first_declared xs)"
  by (induction xs rule: first_declared.induct) (auto simp: set_first_declared)

lemma first_declared_iff: "first_declared xs = xs \<longleftrightarrow> distinct xs"
  using distinct_first_declared [of xs] first_declared_distinct [of xs] by auto

text \<open>
  C6 as stated fails: a mapping that declares the name \<open>deploy\<close> twice, which the
  non-strict decoder accepts, is parsed with \<open>Names\<close> holding \<open>deploy\<close> twice,
  while the names in first-declaration order are \<open>deploy\<close> and \<open>build\<close>.
\<close>

theorem repeated_name_counterexample:
  "Commands_UnmarshalYAML
     (mapping_unmarshal (decodes_to deploy_build) [entry ''deploy'', entry ''build'', entry ''deploy''])
     zero_Commands =
     Inr \<lparr>Commands.Names = [''deploy'', ''build'', ''deploy''], cmds = deploy_build\<rparr>
   \<and> first_declared (map MapItem.Key [entry ''deploy'', entry ''build'', entry ''deploy'']) =
       [IString ''deploy'', IString ''build'']
   \<and> map IString [''deploy'', ''build'', ''deploy''] \<noteq> [IString ''deploy'', IString ''build'']"
  by (simp add: Commands_UnmarshalYAML_def mapping_unmarshal_def decodes_to_def zero_Commands_def
        entry_def)

text \<open>
  C6, as amended. When \<open>UnmarshalYAML\<close> of \<open>Networks\<close>, \<open>Commands\<close> or \<open>Targets\<close>
  succeeds on a mapping, \<open>Names\<close> is the sequence of the declared names in the order
  of the document, one element for each declaration, whatever the decoding into the Go
  map did and in whatever order. It is the sequence of the names in first-declaration
  order exactly when no name is declared twice.
\<close>

theorem names_in_declaration_order:
  "(Networks_UnmarshalYAML (mapping_unmarshal decode_networks doc) n = Inr n' \<longrightarrow>
      map IString (Networks.Names n') = map MapItem.Key doc
      \<and> (map IString (Networks.Names n') = first_declared (map MapItem.Key doc)
           \<longleftrightarrow> distinct (map MapItem.Key doc)))
   \<and> (Commands_UnmarshalYAML (mapping_unmarshal decode_commands doc) c = Inr c' \<longrightarrow>
      map IString (Commands.Names c') = map MapItem.Key doc
      \<and> (map IString (Commands.Names c') = first_declared (map MapItem.Key doc)
           \<longleftrightarrow> distinct (map MapItem.Key doc)))
   \<and> (Targets_UnmarshalYAML (mapping_unmarshal decode_targets doc) t = Inr t' \<longrightarrow>
      map IString (Targets.Names t') = map MapItem.Key doc
      \<and> (map IString (Targets.Names t') = first_declared (map MapItem.Key doc)
           \<longleftrightarrow> distinct (map MapItem.Key doc)))"
proof -
  have "map IString (Networks.Names n') = map MapItem.Key doc"
    if "Networks_UnmarshalYAML (mapping_unmarshal decode_networks doc) n = Inr n'"
    using that
    by (auto simp: Networks_UnmarshalYAML_def mapping_unmarshal_def
             split: sum.splits dest: key_strings_Inr)
  moreover have "map IString (Commands.Names c') = map MapItem.Key doc"
    if "Commands_UnmarshalYAML (mapping_unmarshal decode_commands doc) c = Inr c'"
    using that
    by (auto simp: Commands_UnmarshalYAML_def mapping_unmarshal_def
             split: sum.splits dest: key_strings_Inr)
  moreover have "map IString (Targets.Names t') = map MapItem.Key doc"
    if "Targets_UnmarshalYAML (mapping_unmarshal decode_targets doc) t = Inr t'"
    using that
    by (auto simp: Targets_UnmarshalYAML_def mapping_unmarshal_def
             split: sum.splits dest: key_strings_Inr)
  moreover have "map MapItem.Key doc = first_declared (map MapItem.Key doc)
                 \<longleftrightarrow> distinct (map MapItem.Key doc)"
    using first_declared_iff [of "map MapItem.Key doc"] by auto
  ultimately show ?thesis
    by simp
qed

theorem names_in_declaration_order_witness:
  "Commands_UnmarshalYAML
     (mapping_unmarshal (decodes_to deploy_build) [entry ''deploy'', entry ''build''])
     zero_Commands =
     Inr \<lparr>Commands.Names = [''deploy'', ''build''], cmds = deploy_build\<rparr>
   \<and> map IString [''deploy'', ''build''] = map MapItem.Key [entry ''deploy'', entry ''build'']
   \<and> distinct (map MapItem.Key [entry ''deploy'', entry ''build''])
   \<and> map IString [''deploy'', ''build''] =
       first_declared (map MapItem.Key [entry ''deploy'', entry ''build''])
   \<and> Commands_UnmarshalYAML
       (mapping_unmarshal (decodes_to deploy_build) [entry ''deploy'', entry ''build'', entry ''deploy''])
       zero_Commands =
       Inr \<lparr>Commands.Names = [''deploy'', ''build'', ''deploy''], cmds = deploy_build\<rparr>
   \<and> map IString [''deploy'', ''build'', ''deploy''] =
       map MapItem.Key [entry ''deploy'', entry ''build'', entry ''deploy'']
   \<and> \<not> distinct (map MapItem.Key [entry ''deploy'', entry ''build'', entry ''deploy''])
   \<and> map IString [''deploy'', ''build'', ''deploy''] \<noteq>
       first_declared (map MapItem.Key [entry ''deploy'', entry ''build'', entry ''deploy''])
   \<and> Networks_UnmarshalYAML
       (mapping_unmarshal (decodes_to [''prod'' \<mapsto> zero_Network]) [entry ''prod''])
       \<lparr>Networks.Names = [], nets = Map.empty\<rparr> =
       Inr \<lparr>Networks.Names = [''prod''], nets = [''prod'' \<mapsto> zero_Network]\<rparr>
   \<and> map IString [''prod''] = map MapItem.Key [entry ''prod'']
   \<and> Targets_UnmarshalYAML
       (mapping_unmarshal (decodes_to [''all'' \<mapsto> [''build'', ''deploy'']]) [entry ''all''])
       \<lparr>Targets.Names = [], targets = Map.empty\<rparr> =
       Inr \<lparr>Targets.Names = [''all''], targets = [''all'' \<mapsto> [''build'', ''deploy'']]\<rparr>
   \<and> map IString [''all''] = map MapItem.Key [entry ''all'']"
proof -
  let ?doc = "[entry ''deploy'', entry ''build'']"
  let ?c' = "\<lparr>Commands.Names = [''deploy'', ''build''], cmds = deploy_build\<rparr>"
  let ?dup = "[entry ''deploy'', entry ''build'', entry ''deploy'']"
  let ?d' = "\<lparr>Commands.Names = [''deploy'', ''build'', ''deploy''], cmds = deploy_build\<rparr>"
  let ?ndoc = "[entry ''prod'']"
  let ?n' = "\<lparr>Networks.Names = [''prod''], nets = [''prod'' \<mapsto> zero_Network]\<rparr>"
  let ?tdoc = "[entry ''all'']"
  let ?t' = "\<lparr>Targets.Names = [''all''], targets = [''all'' \<mapsto> [''build'', ''deploy'']]\<rparr>"
  have run: "Commands_UnmarshalYAML (mapping_unmarshal (decodes_to deploy_build) ?doc) zero_Commands = Inr ?c'"
    by (simp add: Commands_UnmarshalYAML_def mapping_unmarshal_def decodes_to_def
          zero_Commands_def entry_def)
  have d: "distinct (map MapItem.Key ?doc)"
    by (simp add: entry_def)
  from names_in_declaration_order
         [where decode_commands = "decodes_to deploy_build" and doc = ?doc
            and c = zero_Commands and c' = ?c'] run
  have c: "map IString (Commands.Names ?c') = map MapItem.Key ?doc"
    and ci: "map IString (Commands.Names ?c') = first_declared (map MapItem.Key ?doc)
             \<longleftrightarrow> distinct (map MapItem.Key ?doc)"
    by blast+
  from ci d have cf: "map IString (Commands.Names ?c') = first_declared (map MapItem.Key ?doc)"
    by blast
  have drun: "Commands_UnmarshalYAML (mapping_unmarshal (decodes_to deploy_build) ?dup) zero_Commands = Inr ?d'"
    by (simp add: Commands_UnmarshalYAML_def mapping_unmarshal_def decodes_to_def
          zero_Commands_def entry_def)
  have nd: "\<not> distinct (map MapItem.Key ?dup)"
    by (simp add: entry_def)
  from names_in_declaration_order
         [where decode_commands = "decodes_to deploy_build" and doc = ?dup
            and c = zero_Commands and c' = ?d'] drun
  have dc: "map IString (Commands.Names ?d') = map MapItem.Key ?dup"
    and di: "map IString (Commands.Names ?d') = first_declared (map MapItem.Key ?dup)
             \<longleftrightarrow> distinct (map MapItem.Key ?dup)"
    by blast+
  from di nd have df: "map IString (Commands.Names ?d') \<noteq> first_declared (map MapItem.Key ?dup)"
    by blast
  have nrun: "Networks_UnmarshalYAML (mapping_unmarshal (decodes_to [''prod'' \<mapsto> zero_Network]) ?ndoc)
                \<lparr>Networks.Names = [], nets = Map.empty\<rparr> = Inr ?n'"
    by (simp add: Networks_UnmarshalYAML_def mapping_unmarshal_def decodes_to_def entry_def)
  from names_in_declaration_order
         [where decode_networks = "decodes_to [''prod'' \<mapsto> zero_Network]" and doc = ?ndoc
            and n = "\<lparr>Networks.Names = [], nets = Map.empty\<rparr>" and n' = ?n'] nrun
  have n: "map IString (Networks.Names ?n') = map MapItem.Key ?ndoc"
    by blast
  have trun: "Targets_UnmarshalYAML
                (mapping_unmarshal (decodes_to [''all'' \<mapsto> [''build'', ''deploy'']]) ?tdoc)
                \<lparr>Targets.Names = [], targets = Map.empty\<rparr> = Inr ?t'"
    by (simp add: Targets_UnmarshalYAML_def mapping_unmarshal_def decodes_to_def entry_def)
  from names_in_declaration_order
         [where decode_targets = "decodes_to [''all'' \<mapsto> [''build'', ''deploy'']]" and doc = ?tdoc
            and t = "\<lparr>Targets.Names = [], targets = Map.empty\<rparr>" and t' = ?t'] trun
  have t: "map IString (Targets.Names ?t') = map MapItem.Key ?tdoc"
    by blast
  from run c d cf drun dc nd df nrun n trun t show ?thesis
    by simp
qed

section \<open>Properties of ParseInventory\<close>

lemma ReadString_line:
  assumes "d \<notin> set line"
  shows "ReadString (line @ d # rest) d = (line @ [d], rest, False)"
proof -
  from assms have "takeWhile (\<lambda>c. c \<noteq> d) (line @ d # rest) = line"
    and "dropWhile (\<lambda>c. c \<noteq> d) (line @ d # rest) = d # rest"
    by (induction line) auto
  then show ?thesis
    by (simp add: ReadString_def)
qed

lemma ReadString_EOF:
  "d \<notin> set buf \<Longrightarrow> ReadString buf d = (buf, [], True)"
  by (simp add: ReadString_def)

lemma ParseInventory_loop_EOF:
  "CHR 0x0A \<notin> set buf \<Longrightarrow> ParseInventory_loop buf hosts = hosts"
  by (subst ParseInventory_loop.simps) (simp add: ReadString_EOF)

lemma ParseInventory_loop_line:
  assumes "CHR 0x0A \<notin> set line"
  shows "ParseInventory_loop (line @ CHR 0x0A # rest) hosts =
           ParseInventory_loop rest
             (hosts @ map address_only
                (filter (\<lambda>host. host \<noteq> '''' \<and> take 1 host \<noteq> ''#'') [TrimSpace (line @ [CHR 0x0A])]))"
  using assms
  by (subst ParseInventory_loop.simps) (simp add: ReadString_line Let_def address_only_def)

lemma spec_lines_line:
  "CHR 0x0A \<notin> set line \<Longrightarrow>
   spec_lines (line @ CHR 0x0A # rest) = (line @ [CHR 0x0A]) # spec_lines rest"
  by (induction line) auto

lemma spec_lines_tail:
  "CHR 0x0A \<notin> set tail \<Longrightarrow> spec_lines tail = (if tail = [] then [] else [tail])"
  by (induction tail) auto

text \<open>
  What the loop does with any output: the text up to the last newline is read as the
  spec says, and what follows the last newline is dropped.
\<close>

lemma ParseInventory_loop_terminated:
  "out = [] \<or> last out = CHR 0x0A \<Longrightarrow> CHR 0x0A \<notin> set tail \<Longrightarrow>
   ParseInventory_loop (out @ tail) hosts = hosts @ spec_inventory out"
proof (induction "length out" arbitrary: out hosts rule: less_induct)
  case less
  show ?case
  proof (cases "CHR 0x0A \<in> set out")
    case False
    with less.prems have "out = []"
      by (cases out rule: rev_cases) auto
    with less.prems show ?thesis
      by (simp add: ParseInventory_loop_EOF spec_inventory_def)
  next
    case True
    then obtain line rest where split: "out = line @ CHR 0x0A # rest" and line: "CHR 0x0A \<notin> set line"
      by (auto dest: split_list_first)
    from split less.prems(1) have rest: "rest = [] \<or> last rest = CHR 0x0A"
      by (cases rest rule: rev_cases) auto
    from split have "length rest < length out"
      by simp
    from less.hyps [OF this rest less.prems(2)] line split show ?thesis
      by (simp add: ParseInventory_loop_line spec_lines_line spec_inventory_def)
  qed
qed

text \<open>
  For an output that is empty or ends in a newline, \<open>ParseInventory\<close> returns the
  hosts of the spec's reading; the output of the spec's example is such an output.
\<close>

lemma ParseInventory_terminated_output:
  assumes "Inventory n \<noteq> ''''"
    and "sh (os_Environ @ EnvList_Slice (Network.Env n)) (Inventory n) = Inr out"
    and "out = [] \<or> last out = CHR 0x0A"
  shows "ParseInventory os_Environ sh n = Inr (spec_inventory out)"
  using assms ParseInventory_loop_terminated [of out "[]" "[]"]
  by (simp add: ParseInventory_def)

lemma ParseInventory_example:
  "ParseInventory [] (prints ''host1\<newline># comment\<newline>\<newline>host2\<newline>'')
     (zero_Network\<lparr>Inventory := ''cat hosts''\<rparr>) =
     Inr [address_only ''host1'', address_only ''host2'']"
  by code_simp

text \<open>
  C8. Every line of the output that is not blank and no comment is to become a host,
  in line order. \<open>ParseInventory\<close> misses the last line when no newline ends it: for
  the output of the spec's example without its final newline, the spec's reading gives
  the hosts \<open>host1\<close> and \<open>host2\<close>, and \<open>ParseInventory\<close> returns \<open>host1\<close> alone.
\<close>

theorem inventory_last_line_lost:
  "ParseInventory [] (prints ''host1\<newline># comment\<newline>\<newline>host2'')
     (zero_Network\<lparr>Inventory := ''cat hosts''\<rparr>) =
     Inr [address_only ''host1'']
   \<and> spec_inventory ''host1\<newline># comment\<newline>\<newline>host2'' =
       [address_only ''host1'', address_only ''host2'']"
  by code_simp

text \<open>
  C10. Whatever follows the last newline of the inventory command's output is dropped:
  the hosts returned are those of the lines that end in a newline. The output
  \<open>host1\<newline>host2\<close> gives the host \<open>host1\<close> alone.
\<close>

theorem unterminated_line_discarded:
  assumes "Inventory n \<noteq> ''''"
    and "sh (os_Environ @ EnvList_Slice (Network.Env n)) (Inventory n) = Inr (out @ tail)"
    and "out = [] \<or> last out = CHR 0x0A"
    and "CHR 0x0A \<notin> set tail"
  shows "ParseInventory os_Environ sh n = Inr (spec_inventory out)
         \<and> (out @ tail = ''host1\<newline>host2'' \<longrightarrow>
              ParseInventory os_Environ sh n = Inr [address_only ''host1''])"
proof -
  from assms have run: "ParseInventory os_Environ sh n = Inr (spec_inventory out)"
    using ParseInventory_loop_terminated [of out tail "[]"]
    by (simp add: ParseInventory_def)
  moreover have "spec_inventory out = [address_only ''host1'']"
    if "out @ tail = ''host1\<newline>host2''"
  proof -
    have "ParseInventory_loop (out @ tail) [] = [address_only ''host1'']"
      unfolding that by code_simp
    with assms(3,4) show ?thesis
      using ParseInventory_loop_terminated [of out tail "[]"] by simp
  qed
  ultimately show ?thesis
    by simp
qed

theorem unterminated_line_discarded_witness:
  "Inventory (zero_Network\<lparr>Inventory := ''cat hosts''\<rparr>) \<noteq> ''''
   \<and> prints (''host1\<newline>'' @ ''host2'')
        ([] @ EnvList_Slice (Network.Env (zero_Network\<lparr>Inventory := ''cat hosts''\<rparr>)))
        (Inventory (zero_Network\<lparr>Inventory := ''cat hosts''\<rparr>)) = Inr (''host1\<newline>'' @ ''host2'')
   \<and> last ''host1\<newline>'' = CHR 0x0A
   \<and> CHR 0x0A \<notin> set ''host2''
   \<and> ParseInventory [] (prints (''host1\<newline>'' @ ''host2'')) (zero_Network\<lparr>Inventory := ''cat hosts''\<rparr>) =
       Inr [address_only ''host1'']"
proof -
  let ?n = "zero_Network\<lparr>Inventory := ''cat hosts''\<rparr>"
  have h1: "Inventory ?n \<noteq> ''''"
    by simp
  have h2: "prints (''host1\<newline>'' @ ''host2'') ([] @ EnvList_Slice (Network.Env ?n)) (Inventory ?n) =
              Inr (''host1\<newline>'' @ ''host2'')"
    by (simp add: prints_def)
  have h3: "''host1\<newline>'' = [] \<or> last ''host1\<newline>'' = CHR 0x0A"
    by simp
  have h4: "CHR 0x0A \<notin> set ''host2''"
    by simp
  from unterminated_line_discarded
         [where n = ?n and sh = "prints (''host1\<newline>'' @ ''host2'')" and os_Environ = "[]"
            and out = "''host1\<newline>''" and tail = "''host2''", OF h1 h2 h3 h4]
  have "''host1\<newline>'' @ ''host2'' = ''host1\<newline>host2'' \<longrightarrow>
        ParseInventory [] (prints (''host1\<newline>'' @ ''host2'')) ?n = Inr [address_only ''host1'']"
    by (rule conjunct2)
  moreover have "''host1\<newline>'' @ ''host2'' = ''host1\<newline>host2''"
    by simp
  ultimately have "ParseInventory [] (prints (''host1\<newline>'' @ ''host2'')) ?n = Inr [address_only ''host1'']"
    by (rule mp)
  with h1 h2 h3 h4 show ?thesis
    by blast
qed

section \<open>Properties of NewHost\<close>

lemma occurs_at_char: "occurs_at s [c] i \<longleftrightarrow> i < length s \<and> s ! i = c"
proof (cases "i < length s")
  case True
  then have "drop i s = s ! i # drop (Suc i) s"
    by (simp add: Cons_nth_drop_Suc)
  with True show ?thesis
    by (simp add: occurs_at_def)
next
  case False
  then show ?thesis
    by (simp add: occurs_at_def)
qed

lemma find_upt_None: "find P [0..<n] = None \<longleftrightarrow> (\<forall>i<n. \<not> P i)"
  by (auto simp: find_None_iff)

lemma find_rev_upt_None: "find P (rev [0..<n]) = None \<longleftrightarrow> (\<forall>i<n. \<not> P i)"
  by (auto simp: find_None_iff)

lemma find_rev_upt_Some:
  "find P (rev [0..<n]) = Some k \<longleftrightarrow> k < n \<and> P k \<and> (\<forall>j. k < j \<and> j < n \<longrightarrow> \<not> P j)"
proof (induction n)
  case 0
  then show ?case by simp
next
  case (Suc n)
  show ?case
  proof (cases "P n")
    case True
    then show ?thesis
      by (auto simp: less_Suc_eq)
  next
    case False
    with Suc show ?thesis
      by (auto simp: less_Suc_eq)
  qed
qed

lemma Contains_char: "Contains s [c] \<longleftrightarrow> c \<in> set s"
proof -
  have "Index s [c] = None \<longleftrightarrow> (\<forall>i<Suc (length s). \<not> occurs_at s [c] i)"
    unfolding Index_def by (rule find_upt_None)
  also have "\<dots> \<longleftrightarrow> (\<forall>i<length s. s ! i \<noteq> c)"
    unfolding occurs_at_char All_less_Suc by auto
  also have "\<dots> \<longleftrightarrow> c \<notin> set s"
    unfolding in_set_conv_nth by auto
  finally show ?thesis
    unfolding Contains_def by simp
qed

lemma LastIndex_char_None: "c \<notin> set s \<Longrightarrow> LastIndex s [c] = None"
  unfolding LastIndex_def find_rev_upt_None
  by (auto simp: occurs_at_char)

lemma LastIndex_char_Some:
  assumes "c \<notin> set b"
  shows "LastIndex (a @ c # b) [c] = Some (length a)"
proof -
  have "\<not> occurs_at (a @ c # b) [c] j" if "length a < j" for j
  proof
    assume "occurs_at (a @ c # b) [c] j"
    then have j: "j < length (a @ c # b)" and "(a @ c # b) ! j = c"
      by (simp_all add: occurs_at_char)
    with that have "b ! (j - Suc (length a)) = c"
      by (simp add: nth_append nth_Cons')
    moreover from j that have "j - Suc (length a) < length b"
      by simp
    ultimately show False
      using assms by (metis nth_mem)
  qed
  then show ?thesis
    unfolding LastIndex_def find_rev_upt_Some
    by (simp add: occurs_at_char)
qed

lemma SplitHostPort_plain:
  assumes "plain host" and "plain port"
  shows "SplitHostPort (host @ CHR '':'' # port) = Inr (host, port)"
proof -
  let ?s = "host @ CHR '':'' # port"
  from assms have h: "CHR '':'' \<notin> set host" "CHR ''['' \<notin> set host" "CHR '']'' \<notin> set host"
    and p: "CHR '':'' \<notin> set port" "CHR ''['' \<notin> set port" "CHR '']'' \<notin> set port"
    by (auto simp: plain_def)
  have i: "LastIndex ?s '':'' = Some (length host)"
    using p(1) by (rule LastIndex_char_Some)
  have first: "take 1 ?s \<noteq> ''[''"
    using h(2) by (cases host) auto
  have "\<not> Contains host '':''" "\<not> Contains ?s ''[''" "\<not> Contains ?s '']''"
    using h p by (simp_all add: Contains_char)
  with i first show ?thesis
    by (simp add: SplitHostPort_def)
qed

text \<open>The scheme is taken off a string that goes on after it, and off no other.\<close>

lemma scheme_stripped:
  assumes "scheme \<longrightarrow> rest \<noteq> []" and "\<not> scheme \<longrightarrow> take 6 rest \<noteq> ''ssh://''"
  shows "(if 6 < length ((if scheme then ''ssh://'' else '''') @ rest)
             \<and> take 6 ((if scheme then ''ssh://'' else '''') @ rest) = ''ssh://''
          then drop 6 ((if scheme then ''ssh://'' else '''') @ rest)
          else (if scheme then ''ssh://'' else '''') @ rest) = rest"
  using assms by (cases scheme; cases rest) auto

lemma host_string_rest:
  "host_string scheme user host port =
     (if scheme then ''ssh://'' else '''') @ host_string False user host port"
  by (simp add: host_string_def)

text \<open>The split at the last \<open>@\<close>: what follows it holds no \<open>@\<close>.\<close>

lemma split_at_last_at:
  assumes "CHR ''@'' \<notin> set hp"
  shows "(case LastIndex ((case user of None \<Rightarrow> '''' | Some u \<Rightarrow> u @ ''@'') @ hp) ''@'' of
            Some at \<Rightarrow> (take at ((case user of None \<Rightarrow> '''' | Some u \<Rightarrow> u @ ''@'') @ hp),
                        drop (at + 1) ((case user of None \<Rightarrow> '''' | Some u \<Rightarrow> u @ ''@'') @ hp))
          | None \<Rightarrow> ('''', (case user of None \<Rightarrow> '''' | Some u \<Rightarrow> u @ ''@'') @ hp)) =
         (case user of None \<Rightarrow> '''' | Some u \<Rightarrow> u, hp)"
proof (cases user)
  case None
  with assms show ?thesis
    by (simp add: LastIndex_char_None)
next
  case (Some u)
  from assms have "LastIndex (u @ CHR ''@'' # hp) ''@'' = Some (length u)"
    by (rule LastIndex_char_Some)
  with Some show ?thesis
    by simp
qed

lemma NewHost_accepts:
  assumes cfg: "extractedHostSSHConfig host = None"
    and host: "plain host"
    and port: "\<forall>p. port = Some p \<longrightarrow> plain p"
    and os: "user = None \<or> user = Some '''' \<longrightarrow> user_Current = Inr osuser"
    and bare: "scheme \<longrightarrow> host_string False user host port \<noteq> ''''"
    and amb: "\<not> scheme \<longrightarrow> take 6 (host_string False user host port) \<noteq> ''ssh://''"
  shows "NewHost user_Current extractedHostSSHConfig ResolvePath (host_string scheme user host port) =
           Inr \<lparr>Address = host, Port = (case port of None \<Rightarrow> ''22'' | Some p \<Rightarrow> p),
                User = (case user of None \<Rightarrow> osuser | Some u \<Rightarrow> if u = '''' then osuser else u),
                IdentityFile = '''', KnownAs = '''', Bastion = ''''\<rparr>"
proof -
  define hp where "hp = host @ (case port of None \<Rightarrow> '''' | Some p \<Rightarrow> '':'' @ p)"
  define rest where "rest = host_string False user host port"
  have rest: "rest = (case user of None \<Rightarrow> '''' | Some u \<Rightarrow> u @ ''@'') @ hp"
    by (simp add: rest_def hp_def host_string_def)
  from host port have at: "CHR ''@'' \<notin> set hp" and slash: "\<not> Contains hp ''/''"
    by (auto simp: hp_def plain_def Contains_char split: option.splits)
  from host have colon: "Contains hp '':'' \<longleftrightarrow> port \<noteq> None"
    by (auto simp: hp_def plain_def Contains_char split: option.splits)
  have split: "(if Contains hp '':'' then SplitHostPort hp else Inr (hp, ''22'')) =
                 Inr (host, case port of None \<Rightarrow> ''22'' | Some p \<Rightarrow> p)"
  proof (cases port)
    case None
    with colon show ?thesis by (simp add: hp_def)
  next
    case (Some p)
    with port have "plain p" by simp
    with host have "SplitHostPort (host @ CHR '':'' # p) = Inr (host, p)"
      by (rule SplitHostPort_plain)
    with Some colon show ?thesis by (simp add: hp_def)
  qed
  have user: "(if (case user of None \<Rightarrow> '''' | Some u \<Rightarrow> u) = '''' then user_Current
               else Inr (case user of None \<Rightarrow> '''' | Some u \<Rightarrow> u)) =
              Inr (case user of None \<Rightarrow> osuser | Some u \<Rightarrow> if u = '''' then osuser else u)"
    using os by (cases user) auto
  have strip: "(if 6 < length (host_string scheme user host port)
                   \<and> take 6 (host_string scheme user host port) = ''ssh://''
                then drop 6 (host_string scheme user host port)
                else host_string scheme user host port) = rest"
    unfolding host_string_rest [of scheme] rest_def [symmetric]
    using bare amb by (intro scheme_stripped) (simp_all add: rest_def)
  show ?thesis
    unfolding NewHost_def Let_def strip
    unfolding rest split_at_last_at [OF at]
    by (simp only: prod.case user sum.case slash if_False split cfg option.case)
qed

lemma NewHost_slash:
  assumes slash: "CHR ''/'' \<in> set address"
    and at: "CHR ''@'' \<notin> set address"
    and os: "user = None \<or> user = Some '''' \<longrightarrow> user_Current = Inr osuser"
    and amb: "\<not> scheme \<longrightarrow> take 6 (host_string False user address None) \<noteq> ''ssh://''"
  shows "NewHost user_Current extractedHostSSHConfig ResolvePath (host_string scheme user address None) =
           Inl (Errorf ''unexpected slash in the host URL'')"
proof -
  define rest where "rest = host_string False user address None"
  have rest: "rest = (case user of None \<Rightarrow> '''' | Some u \<Rightarrow> u @ ''@'') @ address"
    by (simp add: rest_def host_string_def)
  from slash have "address \<noteq> []" by auto
  then have bare: "scheme \<longrightarrow> rest \<noteq> []"
    by (simp add: rest)
  have user: "(if (case user of None \<Rightarrow> '''' | Some u \<Rightarrow> u) = '''' then user_Current
               else Inr (case user of None \<Rightarrow> '''' | Some u \<Rightarrow> u)) =
              Inr (case user of None \<Rightarrow> osuser | Some u \<Rightarrow> if u = '''' then osuser else u)"
    using os by (cases user) auto
  from slash have c: "Contains address ''/''"
    by (simp add: Contains_char)
  have strip: "(if 6 < length (host_string scheme user address None)
                   \<and> take 6 (host_string scheme user address None) = ''ssh://''
                then drop 6 (host_string scheme user address None)
                else host_string scheme user address None) = rest"
    unfolding host_string_rest [of scheme] rest_def [symmetric]
    using bare amb by (intro scheme_stripped) (simp_all add: rest_def)
  show ?thesis
    unfolding NewHost_def Let_def strip
    unfolding rest split_at_last_at [OF at]
    by (simp only: prod.case user sum.case c if_True)
qed

text \<open>
  \<open>NewHost\<close> on any string, read as scheme, user and the rest after the last \<open>@\<close>:
  the user is looked up first, then the rest is searched for a slash, then split.
\<close>

lemma NewHost_parts:
  assumes at: "CHR ''@'' \<notin> set rest"
    and bare: "scheme \<longrightarrow> host_string False user rest None \<noteq> ''''"
    and amb: "\<not> scheme \<longrightarrow> take 6 (host_string False user rest None) \<noteq> ''ssh://''"
  shows "NewHost user_Current cfg ResolvePath (host_string scheme user rest None) =
     (case (if (case user of None \<Rightarrow> '''' | Some u \<Rightarrow> u) = '''' then user_Current
            else Inr (case user of None \<Rightarrow> '''' | Some u \<Rightarrow> u)) of
        Inl err \<Rightarrow> Inl err
      | Inr user' \<Rightarrow>
          if CHR ''/'' \<in> set rest then Inl (Errorf ''unexpected slash in the host URL'')
          else
            (case (if CHR '':'' \<in> set rest then SplitHostPort rest else Inr (rest, ''22'')) of
               Inl err \<Rightarrow> Inl err
             | Inr (address, port) \<Rightarrow>
                (case cfg address of
                   None \<Rightarrow>
                     Inr \<lparr>Address = address, Port = port, User = user',
                          IdentityFile = '''', KnownAs = '''', Bastion = ''''\<rparr>
                 | Some conf \<Rightarrow>
                    (case SSHHost.Host conf of
                       [] \<Rightarrow> Inl (Panic ''index out of range'')
                     | alias # _ \<Rightarrow>
                         Inr \<lparr>Address = HostName conf, Port = Sprintf_d (SSHHost.Port conf),
                              User = SSHHost.User conf,
                              IdentityFile = ResolvePath (SSHHost.IdentityFile conf),
                              KnownAs = alias, Bastion = ProxyJump conf\<rparr>))))"
proof -
  define body where "body = host_string False user rest None"
  have body: "body = (case user of None \<Rightarrow> '''' | Some u \<Rightarrow> u @ ''@'') @ rest"
    by (simp add: body_def host_string_def)
  have strip: "(if 6 < length (host_string scheme user rest None)
                   \<and> take 6 (host_string scheme user rest None) = ''ssh://''
                then drop 6 (host_string scheme user rest None)
                else host_string scheme user rest None) = body"
    unfolding host_string_rest [of scheme] body_def [symmetric]
    using bare amb by (intro scheme_stripped) (simp_all add: body_def)
  show ?thesis
    unfolding NewHost_def Let_def strip
    unfolding body split_at_last_at [OF at]
    by (simp only: prod.case Contains_char)
qed

lemma NewHost_lookup_fails:
  assumes at: "CHR ''@'' \<notin> set rest"
    and u: "user = None \<or> user = Some ''''"
    and uc: "user_Current = Inl err"
  shows "NewHost user_Current cfg ResolvePath (host_string scheme user rest None) = Inl err"
proof -
  have bare_string: "NewHost user_Current cfg ResolvePath ''ssh://'' = Inl err"
  proof -
    have "LastIndex ''ssh://'' ''@'' = None"
      by (rule LastIndex_char_None) simp
    with uc show ?thesis
      by (simp add: NewHost_def)
  qed
  have good: "NewHost user_Current cfg ResolvePath (host_string sc us tx None) = Inl err"
    if "CHR ''@'' \<notin> set tx" and "us = None \<or> us = Some ''''"
      and "sc \<longrightarrow> host_string False us tx None \<noteq> ''''"
      and "\<not> sc \<longrightarrow> take 6 (host_string False us tx None) \<noteq> ''ssh://''" for sc us tx
    using that(2) uc unfolding NewHost_parts [OF that(1,3,4)] by auto
  show ?thesis
  proof (cases "(scheme \<longrightarrow> host_string False user rest None \<noteq> '''')
                \<and> (\<not> scheme \<longrightarrow> take 6 (host_string False user rest None) \<noteq> ''ssh://'')")
    case True
    then show ?thesis
      using good [OF at u] by blast
  next
    case False
    then consider (a) "scheme" "host_string False user rest None = ''''"
      | (b) "\<not> scheme" "take 6 (host_string False user rest None) = ''ssh://''"
      by blast
    then show ?thesis
    proof cases
      case a
      then have "host_string scheme user rest None = ''ssh://''"
        by (simp add: host_string_def split: option.splits)
      with bare_string show ?thesis
        by simp
    next
      case b
      from b(2) u have un: "user = None"
        by (auto simp: host_string_def)
      with b(2) have tk: "take 6 rest = ''ssh://''"
        by (simp add: host_string_def)
      define t where "t = drop 6 rest"
      have "take 6 rest @ drop 6 rest = rest"
        by (rule append_take_drop_id)
      then have split6: "rest = ''ssh://'' @ t"
        unfolding t_def tk by simp
      show ?thesis
      proof (cases "t = ''''")
        case True
        with split6 un b(1) have "host_string scheme user rest None = ''ssh://''"
          by (simp add: host_string_def)
        with bare_string show ?thesis
          by simp
      next
        case False
        have eq: "host_string scheme user rest None = host_string True None t None"
          using un b(1) split6 by (simp add: host_string_def)
        have "CHR ''@'' \<notin> set t"
          using at split6 by auto
        from good [of t None True] this False show ?thesis
          unfolding eq by (simp add: host_string_def)
      qed
    qed
  qed
qed

lemma NewHost_no_colon:
  assumes "CHR ''@'' \<notin> set rest"
    and "scheme \<longrightarrow> host_string False user rest None \<noteq> ''''"
    and "\<not> scheme \<longrightarrow> take 6 (host_string False user rest None) \<noteq> ''ssh://''"
    and "user = None \<or> user = Some '''' \<longrightarrow> user_Current = Inr osuser"
    and "CHR ''/'' \<notin> set rest" and "CHR '':'' \<notin> set rest"
    and "cfg rest = None"
  shows "NewHost user_Current cfg ResolvePath (host_string scheme user rest None) =
           Inr \<lparr>Address = rest, Port = ''22'',
                User = (case user of None \<Rightarrow> osuser | Some u \<Rightarrow> if u = '''' then osuser else u),
                IdentityFile = '''', KnownAs = '''', Bastion = ''''\<rparr>"
  using assms(4-7) unfolding NewHost_parts [OF assms(1-3)]
  by (cases user) auto

lemma NewHost_colon:
  assumes "CHR ''@'' \<notin> set rest"
    and "scheme \<longrightarrow> host_string False user rest None \<noteq> ''''"
    and "\<not> scheme \<longrightarrow> take 6 (host_string False user rest None) \<noteq> ''ssh://''"
    and "user = None \<or> user = Some '''' \<longrightarrow> user_Current = Inr osuser"
    and "CHR ''/'' \<notin> set rest" and "CHR '':'' \<in> set rest"
  shows "SplitHostPort rest = Inl err \<Longrightarrow>
         NewHost user_Current cfg ResolvePath (host_string scheme user rest None) = Inl err"
    and "SplitHostPort rest = Inr (address, port) \<Longrightarrow> cfg address = None \<Longrightarrow>
         NewHost user_Current cfg ResolvePath (host_string scheme user rest None) =
           Inr \<lparr>Address = address, Port = port,
                User = (case user of None \<Rightarrow> osuser | Some u \<Rightarrow> if u = '''' then osuser else u),
                IdentityFile = '''', KnownAs = '''', Bastion = ''''\<rparr>"
  using assms(4-6) unfolding NewHost_parts [OF assms(1-3)]
  by (cases user; auto)+

text \<open>
  \<open>net.SplitHostPort\<close> on a string that does not start with a bracket, cut at its
  last colon, and on a bracketed host followed by a port.
\<close>

lemma SplitHostPort_unbracketed:
  assumes "CHR '':'' \<notin> set b" and "take 1 (a @ CHR '':'' # b) \<noteq> ''[''"
  shows "SplitHostPort (a @ CHR '':'' # b) =
           (if CHR '':'' \<in> set a
            then Inl (AddrError ''too many colons in address'' (a @ CHR '':'' # b))
            else if CHR ''['' \<in> set (a @ b)
            then Inl (AddrError ''unexpected '[' in address'' (a @ CHR '':'' # b))
            else if CHR '']'' \<in> set (a @ b)
            then Inl (AddrError ''unexpected ']' in address'' (a @ CHR '':'' # b))
            else Inr (a, b))"
proof -
  have i: "LastIndex (a @ CHR '':'' # b) '':'' = Some (length a)"
    using assms(1) by (rule LastIndex_char_Some)
  show ?thesis
    using assms(2) by (simp add: SplitHostPort_def i Contains_char)
qed

lemma find_append_cases:
  "find P (xs @ ys) = (case find P xs of None \<Rightarrow> find P ys | Some x \<Rightarrow> Some x)"
  by (induction xs) simp_all

lemma find_upt_Some:
  "find P [0..<n] = Some k \<longleftrightarrow> k < n \<and> P k \<and> (\<forall>j<k. \<not> P j)"
proof (induction n arbitrary: k)
  case 0
  then show ?case by simp
next
  case (Suc n)
  show ?case
  proof (cases "\<exists>j<n. P j")
    case True
    then have "find P [0..<n] \<noteq> None"
      by (simp add: find_upt_None)
    then obtain k' where k': "find P [0..<n] = Some k'"
      by auto
    with Suc [of k'] have "k' < n" "P k'" "\<forall>j<k'. \<not> P j"
      by auto
    have "find P ([0..<n] @ [n]) = Some k'"
      using k' by (simp add: find_append_cases)
    moreover have "k = k'" if "k < Suc n" "P k" "\<forall>j<k. \<not> P j"
      using that \<open>k' < n\<close> \<open>P k'\<close> \<open>\<forall>j<k'. \<not> P j\<close> by (meson nat_neq_iff)
    ultimately show ?thesis
      using \<open>k' < n\<close> \<open>P k'\<close> \<open>\<forall>j<k'. \<not> P j\<close> by auto
  next
    case False
    then have "find P [0..<n] = None"
      by (simp add: find_upt_None)
    then have "find P ([0..<n] @ [n]) = (if P n then Some n else None)"
      by (simp add: find_append_cases)
    with False show ?thesis
      by (auto simp: less_Suc_eq)
  qed
qed

lemma Index_char_Some:
  assumes "c \<notin> set a"
  shows "Index (a @ c # b) [c] = Some (length a)"
proof -
  have "\<not> occurs_at (a @ c # b) [c] j" if "j < length a" for j
    using that assms by (auto simp: occurs_at_char nth_append)
  then show ?thesis
    unfolding Index_def find_upt_Some
    by (simp add: occurs_at_char)
qed

lemma SplitHostPort_bracketed:
  assumes "CHR '']'' \<notin> set host" and "CHR ''['' \<notin> set host"
    and "CHR '':'' \<notin> set port" and "CHR ''['' \<notin> set port" and "CHR '']'' \<notin> set port"
  shows "SplitHostPort (''['' @ host @ '']:'' @ port) = Inr (host, port)"
proof -
  let ?s = "''['' @ host @ '']:'' @ port"
  have s1: "?s = (''['' @ host @ '']'') @ CHR '':'' # port"
    and s2: "?s = (''['' @ host) @ CHR '']'' # ('':'' @ port)"
    by simp_all
  have i: "LastIndex ?s '':'' = Some (length host + 2)"
    unfolding s1 using assms(3) LastIndex_char_Some [of "CHR '':''" port "''['' @ host @ '']''"]
    by simp
  have e: "Index ?s '']'' = Some (length host + 1)"
    unfolding s2 using assms(1) Index_char_Some [of "CHR '']''" "''['' @ host" "'':'' @ port"]
    by simp
  have "\<not> Contains (drop 1 ?s) ''[''" "\<not> Contains (drop (length host + 2) ?s) '']''"
    using assms by (simp_all add: Contains_char)
  with i e show ?thesis
    by (simp add: SplitHostPort_def)
qed

text \<open>
  C5 as stated fails in three places. The string \<open>ssh://\<close> has a leading scheme,
  which is not stripped (the guard asks for more than six characters): the string is
  refused for its slashes, where the empty string that stripping would leave is
  accepted. The address \<open>a/b\<close> holds a slash and is not refused with the
  malformed-address error when the lookup of the OS user fails: that failure is
  returned, the address never looked at. In \<open>@10.0.0.5\<close> the text before the last
  \<open>@\<close> is empty and the user is the OS user, not that text.
\<close>

theorem new_host_grammar_counterexample:
  "NewHost (Inr ''alice'') no_ssh_config id ''ssh://'' =
     Inl (Errorf ''unexpected slash in the host URL'')
   \<and> NewHost (Inr ''alice'') no_ssh_config id '''' =
       Inr \<lparr>Address = '''', Port = ''22'', User = ''alice'',
            IdentityFile = '''', KnownAs = '''', Bastion = ''''\<rparr>
   \<and> NewHost (Inl (External ''user: Current not implemented'')) no_ssh_config id ''a/b'' =
       Inl (External ''user: Current not implemented'')
   \<and> NewHost (Inl (External ''user: Current not implemented'')) no_ssh_config id ''a/b'' \<noteq>
       Inl (Errorf ''unexpected slash in the host URL'')
   \<and> NewHost (Inr ''alice'') no_ssh_config id ''@10.0.0.5'' =
       Inr \<lparr>Address = ''10.0.0.5'', Port = ''22'', User = ''alice'',
            IdentityFile = '''', KnownAs = '''', Bastion = ''''\<rparr>"
  by code_simp

text \<open>
  C5, as amended. Every string is a scheme or none, a user followed by \<open>@\<close> or none,
  and a text without \<open>@\<close>; on all of them \<open>NewHost\<close>, without an SSH-config entry
  for the address, is as follows. The scheme is stripped if something follows it; the
  bare string \<open>ssh://\<close> is left as it is and refused for its slashes. The user is the
  text before the last \<open>@\<close> (the user may hold an \<open>@\<close>), the current OS user when there
  is no user or an empty one; a failure of that lookup is the result, whatever the text
  after the \<open>@\<close>, slashes and malformed ports included. Once the user is determined, a
  text with a slash is refused with the malformed-address error; a text without slash
  and colon is the address, with port \<open>22\<close>; a text with a colon goes through
  \<open>net.SplitHostPort\<close>, whose error is the result and whose host and port are the
  address and the port. That splitting is strict: a text that does not start with a
  bracket is cut at its last colon, and refused if another colon or a bracket is left
  on either side; a bracketed host followed by a colon and a port gives the host without
  the brackets. So a string built after the grammar \<open>[ssh://][user@]host[:port]\<close> from
  a host and a port free of delimiters parses to its parts. The three examples of the
  claim hold; \<open>a/b\<close> fails in every case, with the malformed-address error if the OS
  user is known and with the failure of the lookup otherwise.
\<close>

theorem new_host_grammar:
  "(extractedHostSSHConfig host = None \<and> plain host \<and> (\<forall>p. port = Some p \<longrightarrow> plain p)
      \<and> (user = None \<or> user = Some '''' \<longrightarrow> user_Current = Inr osuser)
      \<and> (scheme \<longrightarrow> host_string False user host port \<noteq> '''')
      \<and> (\<not> scheme \<longrightarrow> take 6 (host_string False user host port) \<noteq> ''ssh://'') \<longrightarrow>
      NewHost user_Current extractedHostSSHConfig ResolvePath (host_string scheme user host port) =
        Inr \<lparr>Address = host, Port = (case port of None \<Rightarrow> ''22'' | Some p \<Rightarrow> p),
             User = (case user of None \<Rightarrow> osuser | Some u \<Rightarrow> if u = '''' then osuser else u),
             IdentityFile = '''', KnownAs = '''', Bastion = ''''\<rparr>)
   \<and> (CHR ''/'' \<in> set address \<and> CHR ''@'' \<notin> set address
      \<and> (user = None \<or> user = Some '''' \<longrightarrow> user_Current = Inr osuser)
      \<and> (\<not> scheme \<longrightarrow> take 6 (host_string False user address None) \<noteq> ''ssh://'') \<longrightarrow>
      NewHost user_Current extractedHostSSHConfig ResolvePath (host_string scheme user address None) =
        Inl (Errorf ''unexpected slash in the host URL''))
   \<and> (extractedHostSSHConfig ''10.0.0.5'' = None \<longrightarrow>
      NewHost user_Current extractedHostSSHConfig ResolvePath ''ssh://deploy@10.0.0.5:2200'' =
        Inr \<lparr>Address = ''10.0.0.5'', Port = ''2200'', User = ''deploy'',
             IdentityFile = '''', KnownAs = '''', Bastion = ''''\<rparr>)
   \<and> (extractedHostSSHConfig ''10.0.0.5'' = None \<and> user_Current = Inr ''alice'' \<longrightarrow>
      NewHost user_Current extractedHostSSHConfig ResolvePath ''10.0.0.5'' =
        Inr \<lparr>Address = ''10.0.0.5'', Port = ''22'', User = ''alice'',
             IdentityFile = '''', KnownAs = '''', Bastion = ''''\<rparr>)
   \<and> isl (NewHost user_Current extractedHostSSHConfig ResolvePath ''a/b'')
   \<and> (user_Current = Inr osuser \<longrightarrow>
      NewHost user_Current extractedHostSSHConfig ResolvePath ''a/b'' =
        Inl (Errorf ''unexpected slash in the host URL''))
   \<and> (user_Current = Inl err \<longrightarrow>
      NewHost user_Current extractedHostSSHConfig ResolvePath ''a/b'' = Inl err)
   \<and> (CHR ''@'' \<notin> set rest \<and> (user = None \<or> user = Some '''') \<and> user_Current = Inl err \<longrightarrow>
      NewHost user_Current extractedHostSSHConfig ResolvePath (host_string scheme user rest None) =
        Inl err)
   \<and> (user_Current = Inr osuser \<longrightarrow>
      NewHost user_Current extractedHostSSHConfig ResolvePath ''ssh://'' =
        Inl (Errorf ''unexpected slash in the host URL''))
   \<and> (CHR ''@'' \<notin> set rest \<and> CHR ''/'' \<notin> set rest \<and> CHR '':'' \<notin> set rest
      \<and> extractedHostSSHConfig rest = None
      \<and> (user = None \<or> user = Some '''' \<longrightarrow> user_Current = Inr osuser)
      \<and> (scheme \<longrightarrow> host_string False user rest None \<noteq> '''')
      \<and> (\<not> scheme \<longrightarrow> take 6 (host_string False user rest None) \<noteq> ''ssh://'') \<longrightarrow>
      NewHost user_Current extractedHostSSHConfig ResolvePath (host_string scheme user rest None) =
        Inr \<lparr>Address = rest, Port = ''22'',
             User = (case user of None \<Rightarrow> osuser | Some u \<Rightarrow> if u = '''' then osuser else u),
             IdentityFile = '''', KnownAs = '''', Bastion = ''''\<rparr>)
   \<and> (CHR ''@'' \<notin> set rest \<and> CHR ''/'' \<notin> set rest \<and> CHR '':'' \<in> set rest
      \<and> SplitHostPort rest = Inl err
      \<and> (user = None \<or> user = Some '''' \<longrightarrow> user_Current = Inr osuser)
      \<and> (scheme \<longrightarrow> host_string False user rest None \<noteq> '''')
      \<and> (\<not> scheme \<longrightarrow> take 6 (host_string False user rest None) \<noteq> ''ssh://'') \<longrightarrow>
      NewHost user_Current extractedHostSSHConfig ResolvePath (host_string scheme user rest None) =
        Inl err)
   \<and> (CHR ''@'' \<notin> set rest \<and> CHR ''/'' \<notin> set rest \<and> CHR '':'' \<in> set rest
      \<and> SplitHostPort rest = Inr (address', port') \<and> extractedHostSSHConfig address' = None
      \<and> (user = None \<or> user = Some '''' \<longrightarrow> user_Current = Inr osuser)
      \<and> (scheme \<longrightarrow> host_string False user rest None \<noteq> '''')
      \<and> (\<not> scheme \<longrightarrow> take 6 (host_string False user rest None) \<noteq> ''ssh://'') \<longrightarrow>
      NewHost user_Current extractedHostSSHConfig ResolvePath (host_string scheme user rest None) =
        Inr \<lparr>Address = address', Port = port',
             User = (case user of None \<Rightarrow> osuser | Some u \<Rightarrow> if u = '''' then osuser else u),
             IdentityFile = '''', KnownAs = '''', Bastion = ''''\<rparr>)
   \<and> (CHR '':'' \<notin> set b \<and> take 1 (a @ CHR '':'' # b) \<noteq> ''['' \<longrightarrow>
      SplitHostPort (a @ CHR '':'' # b) =
        (if CHR '':'' \<in> set a
         then Inl (AddrError ''too many colons in address'' (a @ CHR '':'' # b))
         else if CHR ''['' \<in> set (a @ b)
         then Inl (AddrError ''unexpected '[' in address'' (a @ CHR '':'' # b))
         else if CHR '']'' \<in> set (a @ b)
         then Inl (AddrError ''unexpected ']' in address'' (a @ CHR '':'' # b))
         else Inr (a, b)))
   \<and> (CHR '']'' \<notin> set a \<and> CHR ''['' \<notin> set a
      \<and> CHR '':'' \<notin> set b \<and> CHR ''['' \<notin> set b \<and> CHR '']'' \<notin> set b \<longrightarrow>
      SplitHostPort (''['' @ a @ '']:'' @ b) = Inr (a, b))"
proof -
  have ip: "plain ''10.0.0.5''" and p: "plain ''2200''"
    by (simp_all add: plain_def)
  have ex1: "NewHost user_Current extractedHostSSHConfig ResolvePath ''ssh://deploy@10.0.0.5:2200'' =
        Inr \<lparr>Address = ''10.0.0.5'', Port = ''2200'', User = ''deploy'',
             IdentityFile = '''', KnownAs = '''', Bastion = ''''\<rparr>"
    if "extractedHostSSHConfig ''10.0.0.5'' = None"
    using NewHost_accepts
            [where scheme = True and user = "Some ''deploy''" and host = "''10.0.0.5''"
               and port = "Some ''2200''" and user_Current = user_Current and osuser = "''''"
               and extractedHostSSHConfig = extractedHostSSHConfig
               and ResolvePath = ResolvePath, OF that ip] p
    by (simp add: host_string_def)
  have ex2: "NewHost user_Current extractedHostSSHConfig ResolvePath ''10.0.0.5'' =
        Inr \<lparr>Address = ''10.0.0.5'', Port = ''22'', User = ''alice'',
             IdentityFile = '''', KnownAs = '''', Bastion = ''''\<rparr>"
    if "extractedHostSSHConfig ''10.0.0.5'' = None" and "user_Current = Inr ''alice''"
    using NewHost_accepts
            [where scheme = False and user = None and host = "''10.0.0.5''"
               and port = None and user_Current = user_Current and osuser = "''alice''"
               and extractedHostSSHConfig = extractedHostSSHConfig
               and ResolvePath = ResolvePath, OF that(1) ip] that(2)
    by (simp add: host_string_def)
  have ex3: "NewHost user_Current extractedHostSSHConfig ResolvePath ''a/b'' =
        Inl (Errorf ''unexpected slash in the host URL'')"
    if "user_Current = Inr osuser" for osuser
    using NewHost_slash
            [where scheme = False and user = None and address = "''a/b''"
               and user_Current = user_Current and osuser = osuser
               and extractedHostSSHConfig = extractedHostSSHConfig and ResolvePath = ResolvePath] that
    by (simp add: host_string_def)
  have ex4: "NewHost user_Current extractedHostSSHConfig ResolvePath ''a/b'' = Inl err"
    if "user_Current = Inl err" for err
    using NewHost_lookup_fails
            [where scheme = False and user = None and rest = "''a/b''"
               and user_Current = user_Current and err = err
               and cfg = extractedHostSSHConfig and ResolvePath = ResolvePath] that
    by (simp add: host_string_def)
  have ex3': "isl (NewHost user_Current extractedHostSSHConfig ResolvePath ''a/b'')"
  proof (cases user_Current)
    case (Inl err)
    with ex4 show ?thesis by simp
  next
    case (Inr osuser)
    with ex3 show ?thesis by simp
  qed
  have bare: "NewHost user_Current extractedHostSSHConfig ResolvePath ''ssh://'' =
        Inl (Errorf ''unexpected slash in the host URL'')"
    if "user_Current = Inr osuser"
  proof -
    have "LastIndex ''ssh://'' ''@'' = None"
      by (rule LastIndex_char_None) simp
    moreover have "Contains ''ssh://'' ''/''"
      by (simp add: Contains_char)
    ultimately show ?thesis
      using that by (simp add: NewHost_def)
  qed
  show ?thesis
    apply (intro conjI)
    subgoal
      using NewHost_accepts
              [of extractedHostSSHConfig host port user user_Current osuser scheme ResolvePath]
      by blast
    subgoal
      using NewHost_slash
              [of address user user_Current osuser scheme extractedHostSSHConfig ResolvePath]
      by blast
    subgoal using ex1 by blast
    subgoal using ex2 by blast
    subgoal using ex3' by blast
    subgoal using ex3 [of osuser] by blast
    subgoal using ex4 [of err] by blast
    subgoal
      using NewHost_lookup_fails
              [where rest = rest and user = user and user_Current = user_Current and err = err
                 and cfg = extractedHostSSHConfig and ResolvePath = ResolvePath
                 and scheme = scheme]
      by blast
    subgoal using bare by blast
    subgoal
      using NewHost_no_colon
              [where rest = rest and user = user and user_Current = user_Current
                 and osuser = osuser and cfg = extractedHostSSHConfig
                 and ResolvePath = ResolvePath and scheme = scheme]
      by blast
    subgoal
      using NewHost_colon(1)
              [where rest = rest and user = user and user_Current = user_Current
                 and osuser = osuser and cfg = extractedHostSSHConfig
                 and ResolvePath = ResolvePath and scheme = scheme and err = err]
      by blast
    subgoal
      using NewHost_colon(2)
              [where rest = rest and user = user and user_Current = user_Current
                 and osuser = osuser and cfg = extractedHostSSHConfig
                 and ResolvePath = ResolvePath and scheme = scheme
                 and address = address' and port = port']
      by blast
    subgoal
      by (rule impI, elim conjE, rule SplitHostPort_unbracketed)
    subgoal
      using SplitHostPort_bracketed [where host = a and port = b]
      by blast
    done
qed

theorem new_host_grammar_witness:
  "no_ssh_config ''10.0.0.5'' = None \<and> plain ''10.0.0.5'' \<and> plain ''2200''
   \<and> host_string False (Some ''de@ploy'') ''10.0.0.5'' (Some ''2200'') \<noteq> ''''
   \<and> NewHost (Inr ''alice'') no_ssh_config id
        (host_string True (Some ''de@ploy'') ''10.0.0.5'' (Some ''2200'')) =
        Inr \<lparr>Address = ''10.0.0.5'', Port = ''2200'', User = ''de@ploy'',
             IdentityFile = '''', KnownAs = '''', Bastion = ''''\<rparr>
   \<and> CHR ''/'' \<in> set ''a/b'' \<and> CHR ''@'' \<notin> set ''a/b''
   \<and> take 6 (host_string False None ''a/b'' None) \<noteq> ''ssh://''
   \<and> NewHost (Inr ''alice'') no_ssh_config id (host_string False None ''a/b'' None) =
        Inl (Errorf ''unexpected slash in the host URL'')
   \<and> NewHost (Inr ''alice'') no_ssh_config id ''ssh://deploy@10.0.0.5:2200'' =
        Inr \<lparr>Address = ''10.0.0.5'', Port = ''2200'', User = ''deploy'',
             IdentityFile = '''', KnownAs = '''', Bastion = ''''\<rparr>
   \<and> NewHost (Inr ''alice'') no_ssh_config id ''10.0.0.5'' =
        Inr \<lparr>Address = ''10.0.0.5'', Port = ''22'', User = ''alice'',
             IdentityFile = '''', KnownAs = '''', Bastion = ''''\<rparr>
   \<and> NewHost (Inr ''alice'') no_ssh_config id ''a/b'' =
        Inl (Errorf ''unexpected slash in the host URL'')
   \<and> NewHost (Inl (External ''user: Current not implemented'')) no_ssh_config id ''a/b'' =
        Inl (External ''user: Current not implemented'')
   \<and> CHR ''@'' \<notin> set ''a/b:c:d''
   \<and> NewHost (Inl (External ''user: Current not implemented'')) no_ssh_config id
        (host_string True (Some '''') ''a/b:c:d'' None) =
        Inl (External ''user: Current not implemented'')
   \<and> NewHost (Inr ''alice'') no_ssh_config id ''ssh://'' =
        Inl (Errorf ''unexpected slash in the host URL'')
   \<and> CHR ''@'' \<notin> set ''10.0.0.5'' \<and> CHR ''/'' \<notin> set ''10.0.0.5''
   \<and> CHR '':'' \<notin> set ''10.0.0.5''
   \<and> take 6 (host_string False (Some '''') ''10.0.0.5'' None) \<noteq> ''ssh://''
   \<and> NewHost (Inr ''alice'') no_ssh_config id (host_string False (Some '''') ''10.0.0.5'' None) =
        Inr \<lparr>Address = ''10.0.0.5'', Port = ''22'', User = ''alice'',
             IdentityFile = '''', KnownAs = '''', Bastion = ''''\<rparr>
   \<and> CHR '':'' \<notin> set ''c'' \<and> take 1 (''a:b'' @ CHR '':'' # ''c'') \<noteq> ''[''
   \<and> SplitHostPort ''a:b:c'' = Inl (AddrError ''too many colons in address'' ''a:b:c'')
   \<and> CHR ''@'' \<notin> set ''a:b:c'' \<and> CHR ''/'' \<notin> set ''a:b:c'' \<and> CHR '':'' \<in> set ''a:b:c''
   \<and> take 6 (host_string False None ''a:b:c'' None) \<noteq> ''ssh://''
   \<and> NewHost (Inr ''alice'') no_ssh_config id (host_string False None ''a:b:c'' None) =
        Inl (AddrError ''too many colons in address'' ''a:b:c'')
   \<and> CHR '']'' \<notin> set ''::1'' \<and> CHR ''['' \<notin> set ''::1''
   \<and> CHR '':'' \<notin> set ''22'' \<and> CHR ''['' \<notin> set ''22'' \<and> CHR '']'' \<notin> set ''22''
   \<and> SplitHostPort ''[::1]:22'' = Inr (''::1'', ''22'')
   \<and> CHR ''@'' \<notin> set ''[::1]:22'' \<and> CHR ''/'' \<notin> set ''[::1]:22''
   \<and> CHR '':'' \<in> set ''[::1]:22'' \<and> no_ssh_config ''::1'' = None
   \<and> host_string False (Some ''deploy'') ''[::1]:22'' None \<noteq> ''''
   \<and> NewHost (Inr ''alice'') no_ssh_config id
        (host_string True (Some ''deploy'') ''[::1]:22'' None) =
        Inr \<lparr>Address = ''::1'', Port = ''22'', User = ''deploy'',
             IdentityFile = '''', KnownAs = '''', Bastion = ''''\<rparr>"
proof -
  have a: "NewHost (Inr ''alice'') no_ssh_config id
             (host_string True (Some ''de@ploy'') ''10.0.0.5'' (Some ''2200'')) =
           Inr \<lparr>Address = ''10.0.0.5'', Port = ''2200'', User = ''de@ploy'',
                IdentityFile = '''', KnownAs = '''', Bastion = ''''\<rparr>"
    using new_host_grammar
            [where extractedHostSSHConfig = no_ssh_config and user_Current = "Inr ''alice''" and ResolvePath = id and osuser = "''alice''"
               and scheme = True and user = "Some ''de@ploy''" and host = "''10.0.0.5''" and port = "Some ''2200''",
             THEN conjunct1, THEN mp]
    by (simp add: host_string_def plain_def no_ssh_config_def)
  have b: "NewHost (Inr ''alice'') no_ssh_config id (host_string False None ''a/b'' None) =
           Inl (Errorf ''unexpected slash in the host URL'')"
    using new_host_grammar
            [where extractedHostSSHConfig = no_ssh_config and user_Current = "Inr ''alice''" and ResolvePath = id and osuser = "''alice''"
               and scheme = False and user = None and address = "''a/b''",
             THEN conjunct2, THEN conjunct1, THEN mp]
    by (simp add: host_string_def plain_def no_ssh_config_def)
  have c: "NewHost (Inr ''alice'') no_ssh_config id ''ssh://deploy@10.0.0.5:2200'' =
           Inr \<lparr>Address = ''10.0.0.5'', Port = ''2200'', User = ''deploy'',
                IdentityFile = '''', KnownAs = '''', Bastion = ''''\<rparr>"
    using new_host_grammar
            [where extractedHostSSHConfig = no_ssh_config and user_Current = "Inr ''alice''" and ResolvePath = id and osuser = "''alice''",
             THEN conjunct2, THEN conjunct2, THEN conjunct1, THEN mp]
    by (simp add: host_string_def plain_def no_ssh_config_def)
  have d: "NewHost (Inr ''alice'') no_ssh_config id ''10.0.0.5'' =
           Inr \<lparr>Address = ''10.0.0.5'', Port = ''22'', User = ''alice'',
                IdentityFile = '''', KnownAs = '''', Bastion = ''''\<rparr>"
    using new_host_grammar
            [where extractedHostSSHConfig = no_ssh_config and user_Current = "Inr ''alice''" and ResolvePath = id and osuser = "''alice''",
             THEN conjunct2, THEN conjunct2, THEN conjunct2, THEN conjunct1, THEN mp]
    by (simp add: host_string_def plain_def no_ssh_config_def)
  have e: "NewHost (Inr ''alice'') no_ssh_config id ''a/b'' =
           Inl (Errorf ''unexpected slash in the host URL'')"
    using new_host_grammar
            [where extractedHostSSHConfig = no_ssh_config and user_Current = "Inr ''alice''" and ResolvePath = id and osuser = "''alice''",
             THEN conjunct2, THEN conjunct2, THEN conjunct2, THEN conjunct2, THEN conjunct2, THEN conjunct1, THEN mp]
    by (simp add: host_string_def plain_def no_ssh_config_def)
  have f1: "NewHost (Inl (External ''user: Current not implemented'')) no_ssh_config id ''a/b'' =
           Inl (External ''user: Current not implemented'')"
    using new_host_grammar
            [where extractedHostSSHConfig = no_ssh_config and user_Current = "Inl (External ''user: Current not implemented'')" and ResolvePath = id and err = "External ''user: Current not implemented''",
             THEN conjunct2, THEN conjunct2, THEN conjunct2, THEN conjunct2, THEN conjunct2, THEN conjunct2, THEN conjunct1, THEN mp]
    by (simp add: host_string_def plain_def no_ssh_config_def)
  have f2: "NewHost (Inl (External ''user: Current not implemented'')) no_ssh_config id
             (host_string True (Some '''') ''a/b:c:d'' None) =
           Inl (External ''user: Current not implemented'')"
    using new_host_grammar
            [where extractedHostSSHConfig = no_ssh_config and user_Current = "Inl (External ''user: Current not implemented'')" and ResolvePath = id and err = "External ''user: Current not implemented''"
               and scheme = True and user = "Some ''''" and rest = "''a/b:c:d''",
             THEN conjunct2, THEN conjunct2, THEN conjunct2, THEN conjunct2, THEN conjunct2, THEN conjunct2, THEN conjunct2, THEN conjunct1, THEN mp]
    by (simp add: host_string_def plain_def no_ssh_config_def)
  have g: "NewHost (Inr ''alice'') no_ssh_config id ''ssh://'' =
           Inl (Errorf ''unexpected slash in the host URL'')"
    using new_host_grammar
            [where extractedHostSSHConfig = no_ssh_config and user_Current = "Inr ''alice''" and ResolvePath = id and osuser = "''alice''",
             THEN conjunct2, THEN conjunct2, THEN conjunct2, THEN conjunct2, THEN conjunct2, THEN conjunct2, THEN conjunct2, THEN conjunct2, THEN conjunct1, THEN mp]
    by (simp add: host_string_def plain_def no_ssh_config_def)
  have n: "NewHost (Inr ''alice'') no_ssh_config id (host_string False (Some '''') ''10.0.0.5'' None) =
           Inr \<lparr>Address = ''10.0.0.5'', Port = ''22'', User = ''alice'',
                IdentityFile = '''', KnownAs = '''', Bastion = ''''\<rparr>"
    using new_host_grammar
            [where extractedHostSSHConfig = no_ssh_config and user_Current = "Inr ''alice''" and ResolvePath = id and osuser = "''alice''"
               and scheme = False and user = "Some ''''" and rest = "''10.0.0.5''",
             THEN conjunct2, THEN conjunct2, THEN conjunct2, THEN conjunct2, THEN conjunct2, THEN conjunct2, THEN conjunct2, THEN conjunct2, THEN conjunct2, THEN conjunct1, THEN mp]
    by (simp add: host_string_def plain_def no_ssh_config_def)
  have t: "SplitHostPort ''a:b:c'' = Inl (AddrError ''too many colons in address'' ''a:b:c'')"
    using new_host_grammar
            [where extractedHostSSHConfig = no_ssh_config and user_Current = "Inr ''alice''" and ResolvePath = id and osuser = "''alice''"
               and a = "''a:b''" and b = "''c''",
             THEN conjunct2, THEN conjunct2, THEN conjunct2, THEN conjunct2, THEN conjunct2, THEN conjunct2, THEN conjunct2, THEN conjunct2, THEN conjunct2, THEN conjunct2, THEN conjunct2, THEN conjunct2, THEN conjunct1, THEN mp]
    by (simp add: host_string_def plain_def no_ssh_config_def)
  have ce: "NewHost (Inr ''alice'') no_ssh_config id (host_string False None ''a:b:c'' None) =
           Inl (AddrError ''too many colons in address'' ''a:b:c'')"
    using new_host_grammar
            [where extractedHostSSHConfig = no_ssh_config and user_Current = "Inr ''alice''" and ResolvePath = id and osuser = "''alice''"
               and scheme = False and user = None and rest = "''a:b:c''"
               and err = "AddrError ''too many colons in address'' ''a:b:c''",
             THEN conjunct2, THEN conjunct2, THEN conjunct2, THEN conjunct2, THEN conjunct2, THEN conjunct2, THEN conjunct2, THEN conjunct2, THEN conjunct2, THEN conjunct2, THEN conjunct1, THEN mp]
    by (simp add: host_string_def plain_def no_ssh_config_def t)
  have br: "SplitHostPort ''[::1]:22'' = Inr (''::1'', ''22'')"
    using new_host_grammar
            [where extractedHostSSHConfig = no_ssh_config and user_Current = "Inr ''alice''" and ResolvePath = id and osuser = "''alice''"
               and a = "''::1''" and b = "''22''",
             THEN conjunct2, THEN conjunct2, THEN conjunct2, THEN conjunct2, THEN conjunct2, THEN conjunct2, THEN conjunct2, THEN conjunct2, THEN conjunct2, THEN conjunct2, THEN conjunct2, THEN conjunct2, THEN conjunct2, THEN mp]
    by (simp add: host_string_def plain_def no_ssh_config_def)
  have co: "NewHost (Inr ''alice'') no_ssh_config id
             (host_string True (Some ''deploy'') ''[::1]:22'' None) =
           Inr \<lparr>Address = ''::1'', Port = ''22'', User = ''deploy'',
                IdentityFile = '''', KnownAs = '''', Bastion = ''''\<rparr>"
    using new_host_grammar
            [where extractedHostSSHConfig = no_ssh_config and user_Current = "Inr ''alice''" and ResolvePath = id and osuser = "''alice''"
               and scheme = True and user = "Some ''deploy''" and rest = "''[::1]:22''"
               and address' = "''::1''" and port' = "''22''",
             THEN conjunct2, THEN conjunct2, THEN conjunct2, THEN conjunct2, THEN conjunct2, THEN conjunct2, THEN conjunct2, THEN conjunct2, THEN conjunct2, THEN conjunct2, THEN conjunct2, THEN conjunct1, THEN mp]
    by (simp add: host_string_def plain_def no_ssh_config_def br)
  show ?thesis
    unfolding a b c d e f1 f2 g n t ce br co
    by (simp add: host_string_def plain_def no_ssh_config_def)
qed

end
